theory Spec2Isabelle
  imports Main "HOL-Library.AList"
begin

section \<open>The registry selector of the import-export CLI (operator/registry/registry.go)\<close>

text \<open>
  The package keeps two package-level variables, the catalog \<open>registries\<close> (a Go
  \<open>map[int]*Registry\<close>) and the selection \<open>optionToExec\<close>, and exposes the operations
  that choose a registry, validate flags against it, update the controller config map
  and run the registry's own capabilities. Every function of the file is embedded below
  as a function on an explicit state; each way a Go function can stop (return, exit
  through \<open>utils.HandleErrorAndExit\<close>, run-time panic) is a constructor of the result.
\<close>

subsection \<open>Go maps, errors and the ways a call can end\<close>

text \<open>
  A Go map is modelled as an association list with pairwise distinct keys. Indexing is
  \<open>map_of\<close>, assignment is \<open>AList.update\<close>, and a \<open>range\<close> loop visits the entries
  in the order of the list. Go leaves the order of a \<open>range\<close> over a map unspecified, so
  the order of the list stands for whatever order the run time picks, and statements
  about a map are made for every list.
\<close>

type_synonym ('k, 'v) gomap = "('k \<times> 'v) list"

definition gomap_ok :: "('k, 'v) gomap \<Rightarrow> bool" where
  "gomap_ok m = distinct (map fst m)"

text \<open>The user's answer to a prompt, as the prompt collaborator sees it.\<close>

datatype response = ReadFailure string | NonNumeric string | Numeric int

text \<open>
  Go \<open>error\<close> values: one made in this file by \<open>errors.New\<close>, one handed back by a
  collaborator (cluster CLI, YAML library), and the one \<open>ReadOption\<close> answers with.
\<close>

datatype error = ErrorsNew string | CollaboratorError string | InvalidOption response

datatype panic = NilDereference | TypeAssertion

text \<open>
  A call returns with the state it leaves, or the process exits from
  \<open>HandleErrorAndExit\<close> with a message and an optional error, or the Go run time
  panics. The last two carry the state at the moment the process stops.
\<close>

datatype 's outcome = Returns 's | Exits string "error option" 's | Panics panic 's

fun final :: "'s outcome \<Rightarrow> 's" where
  "final (Returns s) = s"
| "final (Exits msg err s) = s"
| "final (Panics p s) = s"

fun andThen :: "'s outcome \<Rightarrow> ('s \<Rightarrow> 's outcome) \<Rightarrow> 's outcome" where
  "andThen (Returns s) f = f s"
| "andThen (Exits msg err s) f = Exits msg err s"
| "andThen (Panics p s) f = Panics p s"

text \<open>
  Modelled from the spec: \<open>utils.HandleErrorAndExit\<close> is not part of the file. The
  spec describes the fatal-error collaborator as "print message and terminate process
  with non-zero status": the call never returns to its caller.
\<close>

definition HandleErrorAndExit :: "string \<Rightarrow> error option \<Rightarrow> 's \<Rightarrow> 's outcome" where
  "HandleErrorAndExit msg err s = Exits msg err s"

text \<open>
  Modelled from the spec: \<open>utils.ReadOption\<close> is not part of the file. The spec
  describes the interactive prompt collaborator as "read an integer within [min,max]
  with a prompt label" giving an integer or an error; a failed read, a non-numeric
  answer and a number outside the range are the errors.
\<close>

definition ReadOption :: "string \<Rightarrow> int \<Rightarrow> int \<Rightarrow> bool \<Rightarrow> response \<Rightarrow> error + int" where
  "ReadOption label mn mx mandatory resp =
     (case resp of
        Numeric n \<Rightarrow> if mn \<le> n \<and> n \<le> mx then Inr n else Inl (InvalidOption resp)
      | _ \<Rightarrow> Inl (InvalidOption resp))"

subsection \<open>Data model\<close>

text \<open>\<open>Value\<close> is an \<open>interface{}\<close>: \<open>None\<close> is the nil interface.\<close>

record 'v FlagValue =
  Value :: "'v option"
  IsProvided :: bool

text \<open>Both fields are pointers to maps: \<open>None\<close> is the nil pointer.\<close>

record Flags =
  RequiredFlags :: "(string, bool) gomap option"
  OptionalFlags :: "(string, bool) gomap option"

text \<open>
  The capabilities \<open>Read\<close> and \<open>Run\<close> are function values (\<open>None\<close> is the nil
  function). They act on the world outside this package, of type \<open>'w\<close>: the cluster,
  the terminal and the variables of the registry's own package. \<open>Repository\<close> is a
  \<open>*string\<close> into those variables: \<open>None\<close> is the nil pointer, and a pointer is the
  function that reads the string it points to out of the world.
\<close>

record ('v, 'w) Registry =
  Name :: string
  Caption :: string
  Repository :: "('w \<Rightarrow> string) option"
  Option :: int
  Read :: "((string, 'v FlagValue) gomap option \<Rightarrow> 'w \<Rightarrow> 'w outcome) option"
  Run :: "('w \<Rightarrow> 'w outcome) option"
  Flags :: Flags

text \<open>The calls the package makes to its collaborators, in the order it makes them.\<close>

datatype call =
    CallGetCommandOutput
  | CallK8sApplyFromStdin string
  | CallReadOption int int
  | CallRead int
  | CallRun int

text \<open>
  \<open>registries\<close> and \<open>optionToExec\<close> are the two package variables. \<open>printed\<close> is
  what the package has written to standard output through \<open>fmt\<close>, \<open>calls\<close> records
  the collaborator calls made so far, \<open>world\<close> is everything outside the package.
\<close>

record ('v, 'w) state =
  registries :: "(int, ('v, 'w) Registry) gomap"
  optionToExec :: int
  printed :: string
  calls :: "call list"
  world :: 'w

definition invoke :: "('w \<Rightarrow> 'w outcome) \<Rightarrow> ('v, 'w) state \<Rightarrow> ('v, 'w) state outcome" where
  "invoke f s =
     (case f (world s) of
        Returns w \<Rightarrow> Returns (s\<lparr>world := w\<rparr>)
      | Exits msg err w \<Rightarrow> Exits msg err (s\<lparr>world := w\<rparr>)
      | Panics p w \<Rightarrow> Panics p (s\<lparr>world := w\<rparr>))"

text \<open>
  A document decoded by \<open>yaml.Unmarshal\<close> into \<open>map[interface{}]interface{}\<close>: scalars,
  sequences and nested maps of the same type.
\<close>

datatype yaml =
    YNull
  | YBool bool
  | YInt int
  | YStr string
  | YSeq "yaml list"
  | YMap "(yaml \<times> yaml) list"

text \<open>
  The names this file takes from \<open>operator/utils\<close> and \<open>yaml.v2\<close>: the constants of
  the \<open>kubectl\<close> command line and of the config map, the two cluster calls and the two
  YAML calls. None of them is in the file, so they are parameters.
\<close>

record 'w k8sUtils =
  Kubectl :: string
  K8sGet :: string
  K8sConfigMap :: string
  ApiOpControllerConfigMap :: string
  ApiOpWso2Namespace :: string
  CtrlConfigRegType :: string
  CtrlConfigReg :: string
  GetCommandOutput :: "string \<Rightarrow> string list \<Rightarrow> 'w \<Rightarrow> error + string"
  K8sApplyFromStdin :: "string \<Rightarrow> 'w \<Rightarrow> error option \<times> 'w"
  Unmarshal :: "string \<Rightarrow> error + (yaml, yaml) gomap"
  Marshal :: "(yaml, yaml) gomap \<Rightarrow> error + string"

subsection \<open>Formatting\<close>

definition newline :: char where
  "newline = CHR 0x0A"

definition digit :: "nat \<Rightarrow> char" where
  "digit d = ''0123456789'' ! d"

fun digits :: "nat \<Rightarrow> string" where
  "digits n = (if n < 10 then [digit n] else digits (n div 10) @ [digit (n mod 10)])"

declare digits.simps [simp del]

text \<open>The verb \<open>%d\<close> of \<open>fmt.Printf\<close> on an \<open>int\<close>.\<close>

definition itoa :: "int \<Rightarrow> string" where
  "itoa i = (if i < 0 then CHR ''-'' # digits (nat (- i)) else digits (nat i))"

subsection \<open>ReadInputsInteractive, ReadInputsFromFlags\<close>

definition ReadInputsInteractive :: "('v, 'w) state \<Rightarrow> ('v, 'w) state outcome" where
  "ReadInputsInteractive s =
     (case map_of (registries s) (optionToExec s) of
        None \<Rightarrow> Panics NilDereference s
      | Some reg \<Rightarrow>
          (case Read reg of
             None \<Rightarrow> Panics NilDereference s
           | Some rd \<Rightarrow> invoke (rd None) (s\<lparr>calls := calls s @ [CallRead (optionToExec s)]\<rparr>)))"

definition ReadInputsFromFlags ::
  "(string, 'v FlagValue) gomap option \<Rightarrow> ('v, 'w) state \<Rightarrow> ('v, 'w) state outcome" where
  "ReadInputsFromFlags flagValues s =
     (case map_of (registries s) (optionToExec s) of
        None \<Rightarrow> Panics NilDereference s
      | Some reg \<Rightarrow>
          (case Read reg of
             None \<Rightarrow> Panics NilDereference s
           | Some rd \<Rightarrow> invoke (rd flagValues) (s\<lparr>calls := calls s @ [CallRead (optionToExec s)]\<rparr>)))"

subsection \<open>updateCtrlConfig\<close>

text \<open>
  One of the two assignments under "set configurations":
  \<open>controllerConfigMap["data"].(map[interface{}]interface{})[key] = val\<close>.
  The type assertion panics unless \<open>"data"\<close> holds a nested map. Go maps are
  references, so the assignment is seen through the outer map: the model writes the
  updated nested map back in place.
\<close>

definition setDataKey :: "string \<Rightarrow> string \<Rightarrow> (yaml, yaml) gomap \<Rightarrow> panic + (yaml, yaml) gomap" where
  "setDataKey key val controllerConfigMap =
     (case map_of controllerConfigMap (YStr ''data'') of
        Some (YMap dat) \<Rightarrow>
          Inr (AList.update (YStr ''data'') (YMap (AList.update (YStr key) (YStr val) dat))
                 controllerConfigMap)
      | _ \<Rightarrow> Inl TypeAssertion)"

definition setConfigurations ::
  "'w k8sUtils \<Rightarrow> string \<Rightarrow> string \<Rightarrow> (yaml, yaml) gomap \<Rightarrow> panic + (yaml, yaml) gomap" where
  "setConfigurations K registryType repository controllerConfigMap =
     (case setDataKey (CtrlConfigRegType K) registryType controllerConfigMap of
        Inl p \<Rightarrow> Inl p
      | Inr m \<Rightarrow> setDataKey (CtrlConfigReg K) repository m)"

text \<open>The arguments after \<open>k8sUtils.Kubectl\<close> in the call that reads the config map.\<close>

definition getArgs :: "'w k8sUtils \<Rightarrow> string list" where
  "getArgs K = [K8sGet K, K8sConfigMap K, ApiOpControllerConfigMap K,
                ''-n'', ApiOpWso2Namespace K, ''-o'', ''yaml'']"

definition updateCtrlConfig ::
  "'w k8sUtils \<Rightarrow> string \<Rightarrow> string \<Rightarrow> ('v, 'w) state \<Rightarrow> ('v, 'w) state outcome" where
  "updateCtrlConfig K registryType repository s =
     (let s0 = s\<lparr>calls := calls s @ [CallGetCommandOutput]\<rparr> in
      case GetCommandOutput K (Kubectl K) (getArgs K) (world s0) of
        Inl err \<Rightarrow>
          HandleErrorAndExit
            (''Error reading controller-config.'' @ [newline] @
             ''Install api operator using the command: apictl install api-operator'')
            (Some (ErrorsNew ''error reading controller-config'')) s0
      | Inr controllerConfigMapYaml \<Rightarrow>
          (case Unmarshal K controllerConfigMapYaml of
             Inl err \<Rightarrow> HandleErrorAndExit ''Error reading controller-config'' (Some err) s0
           | Inr controllerConfigMap \<Rightarrow>
               (case setConfigurations K registryType repository controllerConfigMap of
                  Inl p \<Rightarrow> Panics p s0
                | Inr configured \<Rightarrow>
                    (case Marshal K configured of
                       Inl err \<Rightarrow>
                         HandleErrorAndExit ''Error rendering controller-config'' (Some err) s0
                     | Inr configuredConfigMap \<Rightarrow>
                         (let s1 = s0\<lparr>calls := calls s0 @ [CallK8sApplyFromStdin configuredConfigMap]\<rparr>
                          in case K8sApplyFromStdin K configuredConfigMap (world s1) of
                               (Some err, w) \<Rightarrow>
                                 HandleErrorAndExit ''Error creating controller-configs'' (Some err)
                                   (s1\<lparr>world := w\<rparr>)
                             | (None, w) \<Rightarrow> Returns (s1\<lparr>world := w\<rparr>))))))"

subsection \<open>UpdateConfigsSecrets\<close>

text \<open>
  The arguments of \<open>updateCtrlConfig\<close> are evaluated first: the catalog entry is
  dereferenced for \<open>Name\<close>, then its \<open>Repository\<close> pointer is dereferenced. After the
  call returns, the entry is read again for \<open>Run\<close>.
\<close>

definition UpdateConfigsSecrets :: "'w k8sUtils \<Rightarrow> ('v, 'w) state \<Rightarrow> ('v, 'w) state outcome" where
  "UpdateConfigsSecrets K s =
     (case map_of (registries s) (optionToExec s) of
        None \<Rightarrow> Panics NilDereference s
      | Some reg \<Rightarrow>
          (case Repository reg of
             None \<Rightarrow> Panics NilDereference s
           | Some repository \<Rightarrow>
               andThen (updateCtrlConfig K (Name reg) (repository (world s)) s)
                 (\<lambda>s1. case map_of (registries s1) (optionToExec s1) of
                          None \<Rightarrow> Panics NilDereference s1
                        | Some reg1 \<Rightarrow>
                            (case Run reg1 of
                               None \<Rightarrow> Panics NilDereference s1
                             | Some run \<Rightarrow>
                                 invoke run
                                   (s1\<lparr>calls := calls s1 @ [CallRun (optionToExec s1)]\<rparr>)))))"

subsection \<open>ChooseRegistryInteractive\<close>

text \<open>The loop that prints \<open>option: caption\<close> for each key of the sorted slice.\<close>

fun printRegistries :: "int list \<Rightarrow> ('v, 'w) state \<Rightarrow> ('v, 'w) state outcome" where
  "printRegistries [] s = Returns s"
| "printRegistries (key # rest) s =
     (case map_of (registries s) key of
        None \<Rightarrow> Panics NilDereference s
      | Some reg \<Rightarrow>
          printRegistries rest
            (s\<lparr>printed := printed s @ itoa key @ '': '' @ Caption reg @ [newline]\<rparr>))"

text \<open>
  The first loop appends the keys in the order of the \<open>range\<close>; \<open>sort.Ints\<close> then
  sorts the slice in increasing order. The answer of the user is the argument
  \<open>resp\<close>.
\<close>

definition ChooseRegistryInteractive :: "response \<Rightarrow> ('v, 'w) state \<Rightarrow> ('v, 'w) state outcome" where
  "ChooseRegistryInteractive resp s =
     (let keys = sort (map fst (registries s)) in
      andThen
        (printRegistries keys (s\<lparr>printed := printed s @ ''Choose registry type:'' @ [newline]\<rparr>))
        (\<lambda>s1. let s2 = s1\<lparr>calls := calls s1 @ [CallReadOption 1 (int (length keys))]\<rparr> in
               case ReadOption ''Choose a number'' 1 (int (length keys)) True resp of
                 Inl err \<Rightarrow> HandleErrorAndExit ''Error reading registry type'' (Some err) s2
               | Inr option \<Rightarrow> Returns (s2\<lparr>optionToExec := option\<rparr>)))"

subsection \<open>SetRegistry\<close>

fun SetRegistry_range ::
  "(int, ('v, 'w) Registry) gomap \<Rightarrow> string \<Rightarrow> ('v, 'w) state \<Rightarrow> ('v, 'w) state outcome" where
  "SetRegistry_range [] registryType s =
     HandleErrorAndExit (''Invalid registry type: '' @ registryType) None s"
| "SetRegistry_range ((opt, reg) # rest) registryType s =
     (if Name reg = registryType then Returns (s\<lparr>optionToExec := opt\<rparr>)
      else SetRegistry_range rest registryType s)"

definition SetRegistry :: "string \<Rightarrow> ('v, 'w) state \<Rightarrow> ('v, 'w) state outcome" where
  "SetRegistry registryType s = SetRegistry_range (registries s) registryType s"

subsection \<open>ValidateFlags\<close>

text \<open>Indexing a \<open>map[string]bool\<close>: a missing key gives \<open>false\<close>.\<close>

definition boolAt :: "(string, bool) gomap \<Rightarrow> string \<Rightarrow> bool" where
  "boolAt m flg = (case map_of m flg of None \<Rightarrow> False | Some b \<Rightarrow> b)"

text \<open>Indexing a \<open>map[string]FlagValue\<close>: a missing key gives the zero \<open>FlagValue\<close>.\<close>

definition flagAt :: "(string, 'v FlagValue) gomap \<Rightarrow> string \<Rightarrow> 'v FlagValue" where
  "flagAt m flg =
     (case map_of m flg of None \<Rightarrow> \<lparr>Value = None, IsProvided = False\<rparr> | Some v \<Rightarrow> v)"

definition missingMsg :: "string \<Rightarrow> string" where
  "missingMsg flg = ''Required flag is missing in batch mode. Flag: '' @ flg"

definition unsupportedMsg :: "string \<Rightarrow> string" where
  "unsupportedMsg flg = ''Invalid, not supported flag found in batch mode. Flag: '' @ flg"

text \<open>
  The first loop. \<open>flagsValues\<close> is a pointer: it is dereferenced only when the
  left operand of \<open>&&\<close> is true.
\<close>

fun requiredLoop ::
  "(string, bool) gomap \<Rightarrow> (string, 'v FlagValue) gomap option \<Rightarrow> 's \<Rightarrow> 's outcome" where
  "requiredLoop [] flagsValues s = Returns s"
| "requiredLoop ((flg, flgRequired) # rest) flagsValues s =
     (if flgRequired then
        (case flagsValues of
           None \<Rightarrow> Panics NilDereference s
         | Some fv \<Rightarrow>
             if \<not> IsProvided (flagAt fv flg)
             then HandleErrorAndExit (missingMsg flg) None s
             else requiredLoop rest flagsValues s)
      else requiredLoop rest flagsValues s)"

text \<open>
  The second loop. The \<open>OptionalFlags\<close> pointer is dereferenced only when the two
  operands to its left are true.
\<close>

fun additionalLoop ::
  "(string, 'v FlagValue) gomap \<Rightarrow> (string, bool) gomap \<Rightarrow> (string, bool) gomap option \<Rightarrow>
   's \<Rightarrow> 's outcome" where
  "additionalLoop [] required optional s = Returns s"
| "additionalLoop ((flg, flgVal) # rest) required optional s =
     (if IsProvided flgVal \<and> \<not> boolAt required flg then
        (case optional of
           None \<Rightarrow> Panics NilDereference s
         | Some opt \<Rightarrow>
             if \<not> boolAt opt flg
             then HandleErrorAndExit (unsupportedMsg flg) None s
             else additionalLoop rest required optional s)
      else additionalLoop rest required optional s)"

definition ValidateFlags ::
  "(string, 'v FlagValue) gomap option \<Rightarrow> ('v, 'w) state \<Rightarrow> ('v, 'w) state outcome" where
  "ValidateFlags flagsValues s =
     (case map_of (registries s) (optionToExec s) of
        None \<Rightarrow> Panics NilDereference s
      | Some reg \<Rightarrow>
          (case RequiredFlags (Flags reg) of
             None \<Rightarrow> Panics NilDereference s
           | Some required \<Rightarrow>
               andThen (requiredLoop required flagsValues s)
                 (\<lambda>s1. case flagsValues of
                          None \<Rightarrow> Panics NilDereference s1
                        | Some fv \<Rightarrow>
                            additionalLoop fv required (OptionalFlags (Flags reg)) s1)))"

subsection \<open>add\<close>

text \<open>
  The argument is a \<open>*Registry\<close>: \<open>None\<close> is the nil pointer, whose field
  \<open>Option\<close> cannot be read. \<open>add\<close> is the only writer of the catalog and stores the
  pointer it is given, so a stored entry is never nil and \<open>registries[k] != nil\<close> is
  the presence of the key.
\<close>

definition add :: "('v, 'w) Registry option \<Rightarrow> ('v, 'w) state \<Rightarrow> ('v, 'w) state outcome" where
  "add registry s =
     (case registry of
        None \<Rightarrow> Panics NilDereference s
      | Some reg \<Rightarrow>
          if Option reg < 1 then
            HandleErrorAndExit (''Error adding registry: '' @ Name reg)
              (Some (ErrorsNew '''option' should be positive'')) s
          else if map_of (registries s) (Option reg) \<noteq> None then
            HandleErrorAndExit (''Error adding registry'' @ Name reg)
              (Some (ErrorsNew ''duplicate 'options' values'')) s
          else Returns (s\<lparr>registries := AList.update (Option reg) reg (registries s)\<rparr>))"

text \<open>The catalogs that calls of \<open>add\<close> build from the empty map of the declaration.\<close>

inductive catalog_reachable :: "(int, ('v, 'w) Registry) gomap \<Rightarrow> bool" where
  empty: "catalog_reachable []"
| added: "catalog_reachable (registries s) \<Longrightarrow> add registry s = Returns s' \<Longrightarrow>
          catalog_reachable (registries s')"

subsection \<open>The vocabulary of the statements\<close>

text \<open>
  The comments on \<open>Flags\<close> say what the two maps mean: a flag is required, or
  optional, when its map sends it to \<open>true\<close>. A flag is in the required (optional) set
  of a descriptor in exactly this sense.
\<close>

definition marked :: "(string, bool) gomap \<Rightarrow> string \<Rightarrow> bool" where
  "marked m flg = (map_of m flg = Some True)"

text \<open>
  A required flag is missing when it is absent from the flag map, or present with
  \<open>IsProvided\<close> false.
\<close>

definition missingRequired ::
  "(string, bool) gomap \<Rightarrow> (string, 'v FlagValue) gomap \<Rightarrow> string \<Rightarrow> bool" where
  "missingRequired req fv flg =
     (marked req flg \<and> (case map_of fv flg of None \<Rightarrow> True | Some v \<Rightarrow> \<not> IsProvided v))"

text \<open>A provided flag is unsupported when it is neither required nor optional.\<close>

definition unsupportedProvided ::
  "(string, bool) gomap \<Rightarrow> (string, bool) gomap \<Rightarrow> (string, 'v FlagValue) gomap \<Rightarrow>
   string \<Rightarrow> bool" where
  "unsupportedProvided req opt fv flg =
     ((case map_of fv flg of None \<Rightarrow> False | Some v \<Rightarrow> IsProvided v) \<and>
      \<not> marked req flg \<and> \<not> marked opt flg)"

text \<open>The invariant of the catalog: keys are positive, and an entry sits at its own option.\<close>

definition catalog_inv :: "(int, ('v, 'w) Registry) gomap \<Rightarrow> bool" where
  "catalog_inv c = (gomap_ok c \<and> (\<forall>(k, reg) \<in> set c. 1 \<le> k \<and> Option reg = k))"

text \<open>The line printed for a key, and the lines printed for a slice of keys.\<close>

definition entryLine :: "(int, ('v, 'w) Registry) gomap \<Rightarrow> int \<Rightarrow> string" where
  "entryLine regs key =
     (case map_of regs key of
        None \<Rightarrow> []
      | Some reg \<Rightarrow> itoa key @ '': '' @ Caption reg @ [newline])"

definition listing :: "(int, ('v, 'w) Registry) gomap \<Rightarrow> int list \<Rightarrow> string" where
  "listing regs keys = concat (map (entryLine regs) keys)"

subsection \<open>A test double\<close>

text \<open>
  A small cluster to run the functions on: it holds the text of the controller config
  map (\<open>None\<close> when the operator is not installed), the secrets created so far and the
  variable that the \<open>Repository\<close> pointer of the example registry points to.
\<close>

record cluster =
  controllerConfig :: "string option"
  secrets :: "string list"
  repositoryVar :: string

definition exampleYaml :: string where
  "exampleYaml = ''kind: ConfigMap'' @ [newline] @ ''data:'' @ [newline] @
                 ''  registryType: HTTP'' @ [newline] @ ''  other: x'' @ [newline]"

definition exampleConfig :: "(yaml, yaml) gomap" where
  "exampleConfig =
     [(YStr ''kind'', YStr ''ConfigMap''),
      (YStr ''data'', YMap [(YStr ''registryType'', YStr ''HTTP''), (YStr ''other'', YStr ''x'')])]"

text \<open>A config map with no \<open>data\<close> section.\<close>

definition bareYaml :: string where
  "bareYaml = ''kind: ConfigMap'' @ [newline]"

definition bareConfig :: "(yaml, yaml) gomap" where
  "bareConfig = [(YStr ''kind'', YStr ''ConfigMap'')]"

text \<open>The double's encoder writes maps of strings, nested one level deep.\<close>

fun scalarText :: "yaml \<Rightarrow> string" where
  "scalarText (YStr s) = s"
| "scalarText v = ''~''"

fun renderNested :: "(yaml \<times> yaml) list \<Rightarrow> string" where
  "renderNested [] = []"
| "renderNested ((k, v) # rest) =
     ''  '' @ scalarText k @ '': '' @ scalarText v @ [newline] @ renderNested rest"

fun doubleMarshal :: "(yaml, yaml) gomap \<Rightarrow> string" where
  "doubleMarshal [] = []"
| "doubleMarshal ((k, YMap m) # rest) =
     scalarText k @ '':'' @ [newline] @ renderNested m @ doubleMarshal rest"
| "doubleMarshal ((k, v) # rest) =
     scalarText k @ '': '' @ scalarText v @ [newline] @ doubleMarshal rest"

definition doubleUnmarshal :: "string \<Rightarrow> error + (yaml, yaml) gomap" where
  "doubleUnmarshal doc =
     (if doc = exampleYaml then Inr exampleConfig
      else if doc = bareYaml then Inr bareConfig
      else Inl (CollaboratorError ''yaml: unmarshal errors''))"

definition doubleK8s :: "cluster k8sUtils" where
  "doubleK8s =
     \<lparr>Kubectl = ''kubectl'', K8sGet = ''get'', K8sConfigMap = ''cm'',
      ApiOpControllerConfigMap = ''controller-config'', ApiOpWso2Namespace = ''wso2-system'',
      CtrlConfigRegType = ''registryType'', CtrlConfigReg = ''repositoryName'',
      GetCommandOutput =
        (\<lambda>cmd args w. case controllerConfig w of
                        None \<Rightarrow> Inl (CollaboratorError ''NotFound'')
                      | Some doc \<Rightarrow> Inr doc),
      K8sApplyFromStdin = (\<lambda>doc w. (None, w\<lparr>controllerConfig := Some doc\<rparr>)),
      Unmarshal = doubleUnmarshal,
      Marshal = (\<lambda>m. Inr (doubleMarshal m))\<rparr>"

definition given :: "string FlagValue" where
  "given = \<lparr>Value = Some ''v'', IsProvided = True\<rparr>"

text \<open>The descriptor of the spec's example: it requires \<open>a\<close> and \<open>b\<close>, and allows \<open>c\<close>.\<close>

definition dockerHub :: "(string, cluster) Registry" where
  "dockerHub =
     \<lparr>Name = ''DOCKER_HUB'', Caption = ''Docker Hub'', Repository = Some repositoryVar,
      Option = 1,
      Read = Some (\<lambda>flagValues w. Returns (w\<lparr>repositoryVar := ''library''\<rparr>)),
      Run = Some (\<lambda>w. Returns (w\<lparr>secrets := secrets w @ [''docker-hub-secret'']\<rparr>)),
      Flags = \<lparr>RequiredFlags = Some [(''a'', True), (''b'', True)],
               OptionalFlags = Some [(''c'', True)]\<rparr>\<rparr>"

definition httpRegistry :: "(string, cluster) Registry" where
  "httpRegistry =
     \<lparr>Name = ''HTTP'', Caption = ''HTTP Private Registry'', Repository = None,
      Option = 2, Read = None, Run = None,
      Flags = \<lparr>RequiredFlags = None, OptionalFlags = None\<rparr>\<rparr>"

text \<open>The package right after start: an empty catalog, \<open>optionToExec\<close> zero.\<close>

definition emptyState :: "(string, cluster) state" where
  "emptyState =
     \<lparr>registries = [], optionToExec = 0, printed = [], calls = [],
      world = \<lparr>controllerConfig = Some exampleYaml, secrets = [], repositoryVar = ''library''\<rparr>\<rparr>"

text \<open>Two registries, listed by the map with the larger key first; the first is selected.\<close>

definition demoState :: "(string, cluster) state" where
  "demoState = emptyState\<lparr>registries := [(2, httpRegistry), (1, dockerHub)], optionToExec := 1\<rparr>"

definition bareState :: "(string, cluster) state" where
  "bareState = demoState\<lparr>world := (world demoState)\<lparr>controllerConfig := Some bareYaml\<rparr>\<rparr>"

text \<open>The same, on a cluster where the operator is not installed.\<close>

definition uninstalledState :: "(string, cluster) state" where
  "uninstalledState = demoState\<lparr>world := (world demoState)\<lparr>controllerConfig := None\<rparr>\<rparr>"

section \<open>Properties\<close>

subsection \<open>ValidateFlags: the two loops\<close>

lemma boolAt_marked: "boolAt m flg = marked m flg"
  by (auto simp: boolAt_def marked_def split: option.splits)

lemma provided_flagAt:
  "IsProvided (flagAt fv flg) = (case map_of fv flg of None \<Rightarrow> False | Some v \<Rightarrow> IsProvided v)"
  by (simp add: flagAt_def split: option.splits)

lemma missingRequired_iff:
  "missingRequired req fv flg \<longleftrightarrow> marked req flg \<and> \<not> IsProvided (flagAt fv flg)"
  by (auto simp: missingRequired_def provided_flagAt split: option.splits)

lemma requiredLoop_passes:
  "\<forall>(flg, b) \<in> set req. b \<longrightarrow> IsProvided (flagAt fv flg) \<Longrightarrow>
   requiredLoop req (Some fv) s = Returns s"
  by (induction req) auto

lemma requiredLoop_stops:
  "\<exists>(flg, b) \<in> set req. b \<and> \<not> IsProvided (flagAt fv flg) \<Longrightarrow>
   \<exists>flg. (flg, True) \<in> set req \<and> \<not> IsProvided (flagAt fv flg) \<and>
         requiredLoop req (Some fv) s = Exits (missingMsg flg) None s"
proof (induction req)
  case Nil
  then show ?case by simp
next
  case (Cons p req)
  obtain flg b where p: "p = (flg, b)" by (cases p)
  show ?case
  proof (cases "b \<and> \<not> IsProvided (flagAt fv flg)")
    case True
    then have "requiredLoop (p # req) (Some fv) s = Exits (missingMsg flg) None s"
      by (simp add: p HandleErrorAndExit_def)
    with True p show ?thesis by auto
  next
    case False
    with Cons.prems p have "\<exists>(flg, b) \<in> set req. b \<and> \<not> IsProvided (flagAt fv flg)"
      by auto
    from Cons.IH [OF this] obtain g where
      g: "(g, True) \<in> set req" "\<not> IsProvided (flagAt fv g)"
         "requiredLoop req (Some fv) s = Exits (missingMsg g) None s"
      by blast
    from False p g(3) have "requiredLoop (p # req) (Some fv) s = Exits (missingMsg g) None s"
      by auto
    with g show ?thesis by auto
  qed
qed

lemma additionalLoop_passes:
  "\<forall>(flg, v) \<in> set fv. IsProvided v \<longrightarrow> boolAt req flg \<or> boolAt opt flg \<Longrightarrow>
   additionalLoop fv req (Some opt) s = Returns s"
  by (induction fv) auto

lemma additionalLoop_stops:
  "\<exists>(flg, v) \<in> set fv. IsProvided v \<and> \<not> boolAt req flg \<and> \<not> boolAt opt flg \<Longrightarrow>
   \<exists>flg v. (flg, v) \<in> set fv \<and> IsProvided v \<and> \<not> boolAt req flg \<and> \<not> boolAt opt flg \<and>
         additionalLoop fv req (Some opt) s = Exits (unsupportedMsg flg) None s"
proof (induction fv)
  case Nil
  then show ?case by simp
next
  case (Cons p fv)
  obtain flg v where p: "p = (flg, v)" by (cases p)
  show ?case
  proof (cases "IsProvided v \<and> \<not> boolAt req flg \<and> \<not> boolAt opt flg")
    case True
    then have "additionalLoop (p # fv) req (Some opt) s = Exits (unsupportedMsg flg) None s"
      by (simp add: p HandleErrorAndExit_def)
    with True p show ?thesis by auto
  next
    case False
    with Cons.prems p
    have "\<exists>(flg, v) \<in> set fv. IsProvided v \<and> \<not> boolAt req flg \<and> \<not> boolAt opt flg"
      by auto
    from Cons.IH [OF this] obtain g w where
      g: "(g, w) \<in> set fv" "IsProvided w" "\<not> boolAt req g" "\<not> boolAt opt g"
         "additionalLoop fv req (Some opt) s = Exits (unsupportedMsg g) None s"
      by blast
    from False p g(5)
    have "additionalLoop (p # fv) req (Some opt) s = Exits (unsupportedMsg g) None s"
      by auto
    with g show ?thesis by auto
  qed
qed

lemma entry_iff_map_of:
  "gomap_ok m \<Longrightarrow> (k, v) \<in> set m \<longleftrightarrow> map_of m k = Some v"
  by (auto simp: gomap_ok_def dest: map_of_SomeD)

lemma required_entry_missing:
  assumes "gomap_ok req"
  shows "(\<exists>(flg, b) \<in> set req. b \<and> \<not> IsProvided (flagAt fv flg)) \<longleftrightarrow>
         (\<exists>flg. missingRequired req fv flg)"
proof
  assume "\<exists>(flg, b) \<in> set req. b \<and> \<not> IsProvided (flagAt fv flg)"
  then obtain flg where "(flg, True) \<in> set req" "\<not> IsProvided (flagAt fv flg)"
    by auto
  with assms have "missingRequired req fv flg"
    by (simp add: missingRequired_iff marked_def entry_iff_map_of)
  then show "\<exists>flg. missingRequired req fv flg" ..
next
  assume "\<exists>flg. missingRequired req fv flg"
  then obtain flg where "missingRequired req fv flg" ..
  with assms have "(flg, True) \<in> set req \<and> \<not> IsProvided (flagAt fv flg)"
    by (simp add: missingRequired_iff marked_def entry_iff_map_of)
  then show "\<exists>(flg, b) \<in> set req. b \<and> \<not> IsProvided (flagAt fv flg)"
    by blast
qed

lemma provided_entry_unsupported:
  assumes "gomap_ok fv"
  shows "(\<exists>(flg, v) \<in> set fv. IsProvided v \<and> \<not> boolAt req flg \<and> \<not> boolAt opt flg) \<longleftrightarrow>
         (\<exists>flg. unsupportedProvided req opt fv flg)"
proof
  assume "\<exists>(flg, v) \<in> set fv. IsProvided v \<and> \<not> boolAt req flg \<and> \<not> boolAt opt flg"
  then obtain flg v where "(flg, v) \<in> set fv" "IsProvided v" "\<not> boolAt req flg" "\<not> boolAt opt flg"
    by blast
  with assms have "unsupportedProvided req opt fv flg"
    by (simp add: unsupportedProvided_def boolAt_marked entry_iff_map_of)
  then show "\<exists>flg. unsupportedProvided req opt fv flg" ..
next
  assume "\<exists>flg. unsupportedProvided req opt fv flg"
  then obtain flg where u: "unsupportedProvided req opt fv flg" ..
  then obtain v where "map_of fv flg = Some v" "IsProvided v"
    by (auto simp: unsupportedProvided_def split: option.splits)
  with assms u have "(flg, v) \<in> set fv \<and> IsProvided v \<and> \<not> boolAt req flg \<and> \<not> boolAt opt flg"
    by (simp add: unsupportedProvided_def boolAt_marked entry_iff_map_of)
  then show "\<exists>(flg, v) \<in> set fv. IsProvided v \<and> \<not> boolAt req flg \<and> \<not> boolAt opt flg"
    by blast
qed

text \<open>
  A flag that the required map sends to \<open>false\<close> is not required: when it is provided
  and not optional, the second loop treats it as unsupported.
\<close>

lemma flag_mapped_to_false_unsupported:
  assumes "map_of req flg = Some False" "\<not> marked opt flg"
    and "map_of fv flg = Some v" "IsProvided v"
  shows "unsupportedProvided req opt fv flg"
  using assms by (simp add: unsupportedProvided_def marked_def)

lemma ValidateFlags_selected:
  assumes "map_of (registries s) (optionToExec s) = Some reg"
    and "RequiredFlags (Flags reg) = Some req"
    and "OptionalFlags (Flags reg) = Some opt"
  shows "ValidateFlags (Some fv) s =
         andThen (requiredLoop req (Some fv) s) (additionalLoop fv req (Some opt))"
  using assms by (simp add: ValidateFlags_def)

lemma ValidateFlags_missing:
  assumes sel: "map_of (registries s) (optionToExec s) = Some reg"
    and req: "RequiredFlags (Flags reg) = Some req"
    and opt: "OptionalFlags (Flags reg) = Some opt"
    and ok: "gomap_ok req"
    and miss: "\<exists>flg. missingRequired req fv flg"
  shows "\<exists>flg. missingRequired req fv flg \<and>
               ValidateFlags (Some fv) s = Exits (missingMsg flg) None s"
proof -
  from miss ok have "\<exists>(flg, b) \<in> set req. b \<and> \<not> IsProvided (flagAt fv flg)"
    by (simp add: required_entry_missing)
  from requiredLoop_stops [OF this, of s] obtain flg where
    f: "(flg, True) \<in> set req" "\<not> IsProvided (flagAt fv flg)"
       "requiredLoop req (Some fv) s = Exits (missingMsg flg) None s"
    by blast
  from f(1) ok have "marked req flg"
    by (simp add: marked_def entry_iff_map_of)
  with f(2) have "missingRequired req fv flg"
    by (simp add: missingRequired_iff)
  moreover have "ValidateFlags (Some fv) s = Exits (missingMsg flg) None s"
    by (simp add: ValidateFlags_selected [OF sel req opt] f(3))
  ultimately show ?thesis by blast
qed

lemma ValidateFlags_unsupported:
  assumes sel: "map_of (registries s) (optionToExec s) = Some reg"
    and req: "RequiredFlags (Flags reg) = Some req"
    and opt: "OptionalFlags (Flags reg) = Some opt"
    and ok: "gomap_ok req" "gomap_ok fv"
    and nomiss: "\<forall>flg. \<not> missingRequired req fv flg"
    and extra: "\<exists>flg. unsupportedProvided req opt fv flg"
  shows "\<exists>flg. unsupportedProvided req opt fv flg \<and>
               ValidateFlags (Some fv) s = Exits (unsupportedMsg flg) None s"
proof -
  from nomiss ok(1) have "\<forall>(flg, b) \<in> set req. b \<longrightarrow> IsProvided (flagAt fv flg)"
    using required_entry_missing [OF ok(1), of fv] by blast
  then have first: "requiredLoop req (Some fv) s = Returns s"
    by (rule requiredLoop_passes)
  from extra ok(2)
  have "\<exists>(flg, v) \<in> set fv. IsProvided v \<and> \<not> boolAt req flg \<and> \<not> boolAt opt flg"
    by (simp add: provided_entry_unsupported)
  from additionalLoop_stops [OF this, of s] obtain flg v where
    f: "(flg, v) \<in> set fv" "IsProvided v" "\<not> boolAt req flg" "\<not> boolAt opt flg"
       "additionalLoop fv req (Some opt) s = Exits (unsupportedMsg flg) None s"
    by blast
  from f(1-4) ok(2) have "unsupportedProvided req opt fv flg"
    by (simp add: unsupportedProvided_def boolAt_marked entry_iff_map_of)
  moreover have "ValidateFlags (Some fv) s = Exits (unsupportedMsg flg) None s"
    by (simp add: ValidateFlags_selected [OF sel req opt] first f(5))
  ultimately show ?thesis by blast
qed

lemma ValidateFlags_accepts:
  assumes sel: "map_of (registries s) (optionToExec s) = Some reg"
    and req: "RequiredFlags (Flags reg) = Some req"
    and opt: "OptionalFlags (Flags reg) = Some opt"
    and ok: "gomap_ok req" "gomap_ok fv"
    and nomiss: "\<forall>flg. \<not> missingRequired req fv flg"
    and noextra: "\<forall>flg. \<not> unsupportedProvided req opt fv flg"
  shows "ValidateFlags (Some fv) s = Returns s"
proof -
  from nomiss have "\<forall>(flg, b) \<in> set req. b \<longrightarrow> IsProvided (flagAt fv flg)"
    using required_entry_missing [OF ok(1), of fv] by blast
  then have first: "requiredLoop req (Some fv) s = Returns s"
    by (rule requiredLoop_passes)
  from noextra
  have "\<forall>(flg, v) \<in> set fv. IsProvided v \<longrightarrow> boolAt req flg \<or> boolAt opt flg"
    using provided_entry_unsupported [OF ok(2), of req opt] by blast
  then have "additionalLoop fv req (Some opt) s = Returns s"
    by (rule additionalLoop_passes)
  with first show ?thesis
    by (simp add: ValidateFlags_selected [OF sel req opt])
qed

lemma missing_not_unsupported: "missingMsg f \<noteq> unsupportedMsg g"
  by (simp add: missingMsg_def unsupportedMsg_def)

text \<open>
  Claim C1. Let a descriptor be selected, with its required and optional flag maps, and
  take any flag map. If some required flag is missing (absent from the flag map, or
  present with \<open>IsProvided\<close> false), \<open>ValidateFlags\<close> exits with the
  missing-required message naming a missing required flag. If no required flag is
  missing and some provided flag is neither required nor optional, it exits with the
  unsupported-flag message naming such a flag. If no required flag is missing and every
  provided flag is required or optional, it returns and leaves the state as it was.
  A flag is required (optional) when the required (optional) map sends it to
  \<open>true\<close>. When several flags qualify, the one named is the first that the
  \<open>range\<close> meets.
\<close>

theorem ValidateFlags_verdict:
  assumes sel: "map_of (registries s) (optionToExec s) = Some reg"
    and req: "RequiredFlags (Flags reg) = Some req"
    and opt: "OptionalFlags (Flags reg) = Some opt"
    and ok: "gomap_ok req" "gomap_ok fv"
  shows "((\<exists>flg. missingRequired req fv flg) \<longrightarrow>
            (\<exists>flg. missingRequired req fv flg \<and>
                   ValidateFlags (Some fv) s = Exits (missingMsg flg) None s)) \<and>
         ((\<forall>flg. \<not> missingRequired req fv flg) \<and> (\<exists>flg. unsupportedProvided req opt fv flg) \<longrightarrow>
            (\<exists>flg. unsupportedProvided req opt fv flg \<and>
                   ValidateFlags (Some fv) s = Exits (unsupportedMsg flg) None s)) \<and>
         ((\<forall>flg. \<not> missingRequired req fv flg) \<and> (\<forall>flg. \<not> unsupportedProvided req opt fv flg) \<longrightarrow>
            ValidateFlags (Some fv) s = Returns s)"
  using ValidateFlags_missing [OF sel req opt ok(1)]
    ValidateFlags_unsupported [OF sel req opt ok]
    ValidateFlags_accepts [OF sel req opt ok]
  by blast

text \<open>
  Claim C2. When the flag map has both a missing required flag and a provided
  unsupported flag, \<open>ValidateFlags\<close> exits with the missing-required message, and
  with no unsupported-flag message: the first loop runs to its end before the second
  starts.
\<close>

theorem ValidateFlags_required_first:
  assumes sel: "map_of (registries s) (optionToExec s) = Some reg"
    and req: "RequiredFlags (Flags reg) = Some req"
    and opt: "OptionalFlags (Flags reg) = Some opt"
    and ok: "gomap_ok req"
    and miss: "missingRequired req fv missing"
    and extra: "unsupportedProvided req opt fv extra"
  shows "(\<exists>flg. missingRequired req fv flg \<and>
               ValidateFlags (Some fv) s = Exits (missingMsg flg) None s) \<and>
         (\<forall>flg err s'. ValidateFlags (Some fv) s \<noteq> Exits (unsupportedMsg flg) err s')"
proof -
  from miss have "\<exists>flg. missingRequired req fv flg" by blast
  from ValidateFlags_missing [OF sel req opt ok this] obtain flg where
    f: "missingRequired req fv flg" "ValidateFlags (Some fv) s = Exits (missingMsg flg) None s"
    by blast
  then show ?thesis
    using missing_not_unsupported by auto
qed

subsection \<open>add and the catalogs it builds\<close>

lemma update_fresh: "map_of al k = None \<Longrightarrow> AList.update k v al = al @ [(k, v)]"
  by (induction al) (auto split: if_splits)

lemma add_rejects_nonpositive:
  "Option reg < 1 \<Longrightarrow>
   add (Some reg) s =
     Exits (''Error adding registry: '' @ Name reg)
       (Some (ErrorsNew '''option' should be positive'')) s"
  by (simp add: add_def HandleErrorAndExit_def)

lemma add_rejects_occupied:
  "1 \<le> Option reg \<Longrightarrow> map_of (registries s) (Option reg) \<noteq> None \<Longrightarrow>
   add (Some reg) s =
     Exits (''Error adding registry'' @ Name reg)
       (Some (ErrorsNew ''duplicate 'options' values'')) s"
  by (simp add: add_def HandleErrorAndExit_def)

lemma add_stores:
  "1 \<le> Option reg \<Longrightarrow> map_of (registries s) (Option reg) = None \<Longrightarrow>
   add (Some reg) s =
     Returns (s\<lparr>registries := AList.update (Option reg) reg (registries s)\<rparr>)"
  by (simp add: add_def)

lemma add_ReturnsD:
  assumes "add registry s = Returns s'"
  obtains reg where "registry = Some reg" "1 \<le> Option reg"
    "map_of (registries s) (Option reg) = None"
    "s' = s\<lparr>registries := AList.update (Option reg) reg (registries s)\<rparr>"
proof (cases registry)
  case None
  with assms show ?thesis by (simp add: add_def)
next
  case (Some reg)
  with assms have "1 \<le> Option reg" "map_of (registries s) (Option reg) = None"
    by (auto simp: add_def HandleErrorAndExit_def split: if_splits)
  moreover from this assms Some
  have "s' = s\<lparr>registries := AList.update (Option reg) reg (registries s)\<rparr>"
    by (simp add: add_stores)
  ultimately show ?thesis using Some that by blast
qed

lemma catalog_inv_add:
  assumes "catalog_inv (registries s)" "add registry s = Returns s'"
  shows "catalog_inv (registries s')"
proof -
  from assms(2) obtain reg where r: "1 \<le> Option reg"
    "map_of (registries s) (Option reg) = None"
    "s' = s\<lparr>registries := AList.update (Option reg) reg (registries s)\<rparr>"
    by (rule add_ReturnsD)
  from r(2) have "Option reg \<notin> fst ` set (registries s)"
    by (simp add: map_of_eq_None_iff)
  with assms(1) r(1) show ?thesis
    by (auto simp: catalog_inv_def gomap_ok_def r(3) update_fresh [OF r(2)])
qed

lemma catalog_reachable_inv: "catalog_reachable c \<Longrightarrow> catalog_inv c"
proof (induction rule: catalog_reachable.induct)
  case empty
  show ?case by (simp add: catalog_inv_def gomap_ok_def)
next
  case (added s registry s')
  then show ?case by (simp add: catalog_inv_add)
qed

lemma add_keeps:
  assumes "add registry s = Returns s'" "map_of (registries s) k = Some reg"
  shows "map_of (registries s') k = Some reg"
proof -
  from assms(1) obtain r where r: "map_of (registries s) (Option r) = None"
    "s' = s\<lparr>registries := AList.update (Option r) r (registries s)\<rparr>"
    by (rule add_ReturnsD)
  with assms(2) show ?thesis by (auto simp: update_conv')
qed

text \<open>
  Claim C3. \<open>add\<close> exits with an error and leaves the state unchanged when the option of
  the descriptor is below 1 or its slot is occupied. Otherwise it returns, the
  descriptor is found under its option, the other slots are as before, and later calls
  of \<open>add\<close> that return keep it there. Every catalog built by calls of \<open>add\<close> from
  the empty map has pairwise distinct keys, all positive, each entry stored under its
  own option.
\<close>

theorem add_contract:
  "(Option reg < 1 \<or> map_of (registries s) (Option reg) \<noteq> None \<longrightarrow>
      (\<exists>msg err. add (Some reg) s = Exits msg (Some err) s)) \<and>
   (1 \<le> Option reg \<and> map_of (registries s) (Option reg) = None \<longrightarrow>
      (\<exists>s'. add (Some reg) s = Returns s' \<and>
            map_of (registries s') (Option reg) = Some reg \<and>
            (\<forall>k. k \<noteq> Option reg \<longrightarrow> map_of (registries s') k = map_of (registries s) k) \<and>
            (\<forall>later s''. add later s' = Returns s'' \<longrightarrow>
               map_of (registries s'') (Option reg) = Some reg))) \<and>
   (catalog_reachable c \<longrightarrow>
      gomap_ok c \<and> (\<forall>(k, r) \<in> set c. 1 \<le> k \<and> Option r = k))"
proof (intro conjI impI)
  assume "Option reg < 1 \<or> map_of (registries s) (Option reg) \<noteq> None"
  then show "\<exists>msg err. add (Some reg) s = Exits msg (Some err) s"
    using add_rejects_nonpositive [of reg s] add_rejects_occupied [of reg s]
    by (cases "Option reg < 1") auto
next
  assume a: "1 \<le> Option reg \<and> map_of (registries s) (Option reg) = None"
  let ?s' = "s\<lparr>registries := AList.update (Option reg) reg (registries s)\<rparr>"
  from a have 1: "add (Some reg) s = Returns ?s'" by (simp add: add_stores)
  from a have 2: "map_of (registries ?s') (Option reg) = Some reg"
    by (simp add: update_conv')
  have 3: "\<forall>k. k \<noteq> Option reg \<longrightarrow> map_of (registries ?s') k = map_of (registries s) k"
    by (simp add: update_conv')
  have 4: "\<forall>later s''. add later ?s' = Returns s'' \<longrightarrow>
             map_of (registries s'') (Option reg) = Some reg"
    using add_keeps 2 by blast
  from 1 2 3 4 show "\<exists>s'. add (Some reg) s = Returns s' \<and>
            map_of (registries s') (Option reg) = Some reg \<and>
            (\<forall>k. k \<noteq> Option reg \<longrightarrow> map_of (registries s') k = map_of (registries s) k) \<and>
            (\<forall>later s''. add later s' = Returns s'' \<longrightarrow>
               map_of (registries s'') (Option reg) = Some reg)"
    by blast
next
  assume "catalog_reachable c"
  then have "catalog_inv c" by (rule catalog_reachable_inv)
  then show "gomap_ok c" by (simp add: catalog_inv_def)
next
  assume "catalog_reachable c"
  then have "catalog_inv c" by (rule catalog_reachable_inv)
  then show "\<forall>(k, r) \<in> set c. 1 \<le> k \<and> Option r = k" by (simp add: catalog_inv_def)
qed

subsection \<open>SetRegistry\<close>

lemma SetRegistry_range_found:
  "\<exists>(opt, reg) \<in> set regs. Name reg = t \<Longrightarrow>
   \<exists>opt reg. (opt, reg) \<in> set regs \<and> Name reg = t \<and>
             SetRegistry_range regs t s = Returns (s\<lparr>optionToExec := opt\<rparr>)"
proof (induction regs)
  case Nil
  then show ?case by simp
next
  case (Cons p regs)
  obtain opt reg where p: "p = (opt, reg)" by (cases p)
  show ?case
  proof (cases "Name reg = t")
    case True
    with p show ?thesis by auto
  next
    case False
    with Cons.prems p have "\<exists>(opt, reg) \<in> set regs. Name reg = t" by auto
    from Cons.IH [OF this] obtain o' r' where
      "(o', r') \<in> set regs" "Name r' = t"
      "SetRegistry_range regs t s = Returns (s\<lparr>optionToExec := o'\<rparr>)"
      by blast
    with False p show ?thesis by auto
  qed
qed

lemma SetRegistry_range_unknown:
  "\<forall>(opt, reg) \<in> set regs. Name reg \<noteq> t \<Longrightarrow>
   SetRegistry_range regs t s = Exits (''Invalid registry type: '' @ t) None s"
  by (induction regs) (auto simp: HandleErrorAndExit_def)

text \<open>
  Claim C7. When some descriptor of the catalog has the name asked for,
  \<open>SetRegistry\<close> returns with \<open>optionToExec\<close> set to the key of such a descriptor
  and nothing else changed. When none has, it exits with the message
  "Invalid registry type: " followed by the name, in the state it was called in, so
  that an earlier selection is kept.
\<close>

theorem SetRegistry_contract:
  "((\<exists>(opt, reg) \<in> set (registries s). Name reg = t) \<longrightarrow>
      (\<exists>opt reg. (opt, reg) \<in> set (registries s) \<and> Name reg = t \<and>
                 SetRegistry t s = Returns (s\<lparr>optionToExec := opt\<rparr>))) \<and>
   ((\<forall>(opt, reg) \<in> set (registries s). Name reg \<noteq> t) \<longrightarrow>
      SetRegistry t s = Exits (''Invalid registry type: '' @ t) None s)"
  unfolding SetRegistry_def
  using SetRegistry_range_found [of "registries s" t s]
    SetRegistry_range_unknown [of "registries s" t s]
  by blast

subsection \<open>ChooseRegistryInteractive: the listing and the selection\<close>

lemma printRegistries_prints:
  "set keys \<subseteq> fst ` set (registries s) \<Longrightarrow>
   printRegistries keys s = Returns (s\<lparr>printed := printed s @ listing (registries s) keys\<rparr>)"
proof (induction keys arbitrary: s)
  case Nil
  show ?case by (simp add: listing_def)
next
  case (Cons key keys)
  from Cons.prems have "key \<in> fst ` set (registries s)" by simp
  then obtain reg where reg: "map_of (registries s) key = Some reg"
    by (metis map_of_eq_None_iff not_Some_eq)
  let ?s = "s\<lparr>printed := printed s @ itoa key @ '': '' @ Caption reg @ [newline]\<rparr>"
  from Cons.prems have "set keys \<subseteq> fst ` set (registries ?s)" by simp
  from Cons.IH [OF this] reg show ?case
    by (simp add: listing_def entryLine_def)
qed

lemma ChooseRegistryInteractive_unfold:
  "ChooseRegistryInteractive resp s =
     (let keys = sort (map fst (registries s));
          s2 = s\<lparr>printed := printed s @ ''Choose registry type:'' @ [newline] @
                               listing (registries s) keys,
                  calls := calls s @ [CallReadOption 1 (int (length (registries s)))]\<rparr>
      in case ReadOption ''Choose a number'' 1 (int (length (registries s))) True resp of
           Inl err \<Rightarrow> Exits ''Error reading registry type'' (Some err) s2
         | Inr option \<Rightarrow> Returns (s2\<lparr>optionToExec := option\<rparr>))"
proof -
  let ?s0 = "s\<lparr>printed := printed s @ ''Choose registry type:'' @ [newline]\<rparr>"
  have "set (sort (map fst (registries s))) \<subseteq> fst ` set (registries ?s0)" by simp
  from printRegistries_prints [OF this] show ?thesis
    by (simp add: ChooseRegistryInteractive_def Let_def HandleErrorAndExit_def
        split: sum.splits)
qed

lemma ReadOption_Inr:
  "ReadOption label mn mx m resp = Inr n \<longleftrightarrow> resp = Numeric n \<and> mn \<le> n \<and> n \<le> mx"
  by (auto simp: ReadOption_def split: response.splits)

lemma ReadOption_Inl:
  "ReadOption label mn mx m resp = Inl e \<longleftrightarrow>
     e = InvalidOption resp \<and> (\<forall>n. resp = Numeric n \<longrightarrow> n < mn \<or> mx < n)"
  by (auto simp: ReadOption_def split: response.splits)

text \<open>
  Claim C6. With \<open>count\<close> the number of registered descriptors:
  when \<open>ChooseRegistryInteractive\<close> returns, \<open>optionToExec\<close> is the number the user
  gave and lies in \<open>[1, count]\<close>; every number in that range is accepted, whether or not
  it is a key of the catalog. On a number outside the range, a non-numeric answer or a
  failed read it exits with "Error reading registry type" and \<open>optionToExec\<close> and the
  catalog are as before. It never panics.
\<close>

theorem ChooseRegistryInteractive_range:
  "(\<forall>s'. ChooseRegistryInteractive resp s = Returns s' \<longrightarrow>
         1 \<le> optionToExec s' \<and> optionToExec s' \<le> int (length (registries s)) \<and>
         resp = Numeric (optionToExec s')) \<and>
   (\<forall>n. resp = Numeric n \<and> 1 \<le> n \<and> n \<le> int (length (registries s)) \<longrightarrow>
      (\<exists>s'. ChooseRegistryInteractive resp s = Returns s' \<and> optionToExec s' = n)) \<and>
   ((\<forall>n. resp = Numeric n \<longrightarrow> n < 1 \<or> int (length (registries s)) < n) \<longrightarrow>
      (\<exists>s'. ChooseRegistryInteractive resp s =
              Exits ''Error reading registry type'' (Some (InvalidOption resp)) s' \<and>
            optionToExec s' = optionToExec s \<and> registries s' = registries s)) \<and>
   (\<forall>msg err s'. ChooseRegistryInteractive resp s = Exits msg err s' \<longrightarrow>
         optionToExec s' = optionToExec s) \<and>
   (\<forall>p s'. ChooseRegistryInteractive resp s \<noteq> Panics p s')"
proof (cases "ReadOption ''Choose a number'' 1 (int (length (registries s))) True resp")
  case (Inl e)
  then obtain s' where run: "ChooseRegistryInteractive resp s =
                    Exits ''Error reading registry type'' (Some e) s'"
     and same: "optionToExec s' = optionToExec s" "registries s' = registries s"
    by (simp add: ChooseRegistryInteractive_unfold Let_def)
  from Inl have e: "e = InvalidOption resp"
    and out: "\<forall>n. resp = Numeric n \<longrightarrow> n < 1 \<or> int (length (registries s)) < n"
    by (simp_all add: ReadOption_Inl)
  from out have never: "\<forall>n. \<not> (resp = Numeric n \<and> 1 \<le> n \<and> n \<le> int (length (registries s)))"
    by auto
  show ?thesis
    unfolding run e using same never by simp
next
  case (Inr n)
  then obtain s' where run: "ChooseRegistryInteractive resp s = Returns s'"
    and sel: "optionToExec s' = n"
    by (simp add: ChooseRegistryInteractive_unfold Let_def)
  from Inr have n: "resp = Numeric n" "1 \<le> n" "n \<le> int (length (registries s))"
    by (simp_all add: ReadOption_Inr)
  show ?thesis
    unfolding run using sel n by simp
qed

lemma sorted_keys:
  "gomap_ok regs \<Longrightarrow> sorted_wrt (<) (sort (map fst regs))"
  by (simp add: gomap_ok_def strict_sorted_iff)

lemma sort_keys_order_free:
  assumes "gomap_ok r1" "gomap_ok r2" "set r1 = set r2"
  shows "sort (map fst r1) = sort (map fst r2)"
proof (rule sorted_distinct_set_unique)
  show "sorted (sort (map fst r1))" "sorted (sort (map fst r2))" by simp_all
  from assms show "distinct (sort (map fst r1))" "distinct (sort (map fst r2))"
    by (simp_all add: gomap_ok_def)
  from assms(3) show "set (sort (map fst r1)) = set (sort (map fst r2))" by simp
qed

lemma entryLine_order_free:
  assumes "gomap_ok r1" "gomap_ok r2" "set r1 = set r2"
  shows "entryLine r1 = entryLine r2"
proof -
  from assms have "map_of r1 = map_of r2"
    by (simp add: gomap_ok_def map_of_inject_set)
  then show ?thesis by (simp add: entryLine_def fun_eq_iff)
qed

lemma printed_ChooseRegistryInteractive:
  "printed (final (ChooseRegistryInteractive resp s)) =
     printed s @ ''Choose registry type:'' @ [newline] @
     listing (registries s) (sort (map fst (registries s)))"
  by (simp add: ChooseRegistryInteractive_unfold Let_def split: sum.splits)

text \<open>
  Claim C8. After the header, \<open>ChooseRegistryInteractive\<close> prints the lines of a list of
  keys that is strictly increasing and holds exactly the keys of the catalog; the line
  of a key is its decimal form, a colon, a space, the caption of its descriptor and a
  newline. Two catalogs with the same entries, in whatever order the map yields them,
  give the same output.
\<close>

theorem ChooseRegistryInteractive_listing:
  fixes s :: "('v, 'w) state"
  assumes "gomap_ok (registries s)"
  shows "(\<exists>keys. sorted_wrt (<) keys \<and> set keys = fst ` set (registries s) \<and>
            printed (final (ChooseRegistryInteractive resp s)) =
              printed s @ ''Choose registry type:'' @ [newline] @
              concat (map (entryLine (registries s)) keys)) \<and>
         (\<forall>key reg. map_of (registries s) key = Some reg \<longrightarrow>
            entryLine (registries s) key = itoa key @ '': '' @ Caption reg @ [newline]) \<and>
         (\<forall>t. gomap_ok (registries t) \<and> set (registries t) = set (registries s) \<and>
              printed t = printed s \<longrightarrow>
            printed (final (ChooseRegistryInteractive resp t)) =
            printed (final (ChooseRegistryInteractive resp s)))"
proof (intro conjI allI impI)
  let ?keys = "sort (map fst (registries s))"
  have "sorted_wrt (<) ?keys" using assms by (rule sorted_keys)
  moreover have "set ?keys = fst ` set (registries s)" by simp
  moreover have "printed (final (ChooseRegistryInteractive resp s)) =
      printed s @ ''Choose registry type:'' @ [newline] @
      concat (map (entryLine (registries s)) ?keys)"
    by (simp add: printed_ChooseRegistryInteractive listing_def)
  ultimately show "\<exists>keys. sorted_wrt (<) keys \<and> set keys = fst ` set (registries s) \<and>
            printed (final (ChooseRegistryInteractive resp s)) =
              printed s @ ''Choose registry type:'' @ [newline] @
              concat (map (entryLine (registries s)) keys)"
    by blast
next
  fix key reg
  assume "map_of (registries s) key = Some reg"
  then show "entryLine (registries s) key = itoa key @ '': '' @ Caption reg @ [newline]"
    by (simp add: entryLine_def)
next
  fix t :: "('v, 'w) state"
  assume t: "gomap_ok (registries t) \<and> set (registries t) = set (registries s) \<and>
             printed t = printed s"
  then have t': "gomap_ok (registries t)" "set (registries t) = set (registries s)"
    by simp_all
  have "sort (map fst (registries t)) = sort (map fst (registries s))"
    by (rule sort_keys_order_free [OF t'(1) assms t'(2)])
  moreover have "entryLine (registries t) = entryLine (registries s)"
    by (rule entryLine_order_free [OF t'(1) assms t'(2)])
  ultimately show "printed (final (ChooseRegistryInteractive resp t)) =
               printed (final (ChooseRegistryInteractive resp s))"
    using t by (simp add: printed_ChooseRegistryInteractive listing_def)
qed

subsection \<open>updateCtrlConfig and UpdateConfigsSecrets\<close>

lemma setDataKey_sets:
  assumes "map_of cfg (YStr ''data'') = Some (YMap dat)"
  shows "\<exists>cfg'. setDataKey key val cfg = Inr cfg' \<and>
           map_of cfg' (YStr ''data'') = Some (YMap (AList.update (YStr key) (YStr val) dat)) \<and>
           (\<forall>k. k \<noteq> YStr ''data'' \<longrightarrow> map_of cfg' k = map_of cfg k) \<and>
           map fst cfg' = map fst cfg"
proof -
  let ?cfg' = "AList.update (YStr ''data'') (YMap (AList.update (YStr key) (YStr val) dat)) cfg"
  from assms have "YStr ''data'' \<in> set (map fst cfg)"
    by (metis map_of_eq_None_iff option.distinct(1) set_map)
  then have "map fst ?cfg' = map fst cfg"
    by (simp add: update_keys)
  moreover from assms have "setDataKey key val cfg = Inr ?cfg'"
    by (simp add: setDataKey_def)
  moreover have "map_of ?cfg' (YStr ''data'') =
                 Some (YMap (AList.update (YStr key) (YStr val) dat))"
    by (simp add: update_conv')
  moreover have "\<forall>k. k \<noteq> YStr ''data'' \<longrightarrow> map_of ?cfg' k = map_of cfg k"
    by (simp add: update_conv')
  ultimately show ?thesis by blast
qed

lemma setDataKey_panics:
  "(\<forall>dat. map_of cfg (YStr ''data'') \<noteq> Some (YMap dat)) \<Longrightarrow>
   setDataKey key val cfg = Inl TypeAssertion"
  by (auto simp: setDataKey_def split: option.splits yaml.splits)

lemma setConfigurations_sets:
  assumes dat: "map_of cfg (YStr ''data'') = Some (YMap dat)"
    and keys: "CtrlConfigRegType K \<noteq> CtrlConfigReg K"
  shows "\<exists>cfg' dat'. setConfigurations K registryType repository cfg = Inr cfg' \<and>
           map_of cfg' (YStr ''data'') = Some (YMap dat') \<and>
           map_of dat' (YStr (CtrlConfigRegType K)) = Some (YStr registryType) \<and>
           map_of dat' (YStr (CtrlConfigReg K)) = Some (YStr repository) \<and>
           (\<forall>k. k \<noteq> YStr (CtrlConfigRegType K) \<and> k \<noteq> YStr (CtrlConfigReg K) \<longrightarrow>
                map_of dat' k = map_of dat k) \<and>
           (\<forall>k. k \<noteq> YStr ''data'' \<longrightarrow> map_of cfg' k = map_of cfg k) \<and>
           map fst cfg' = map fst cfg"
proof -
  let ?d1 = "AList.update (YStr (CtrlConfigRegType K)) (YStr registryType) dat"
  let ?d2 = "AList.update (YStr (CtrlConfigReg K)) (YStr repository) ?d1"
  from setDataKey_sets [OF dat, of "CtrlConfigRegType K" registryType]
  obtain c1 where c1: "setDataKey (CtrlConfigRegType K) registryType cfg = Inr c1"
    "map_of c1 (YStr ''data'') = Some (YMap ?d1)"
    "\<forall>k. k \<noteq> YStr ''data'' \<longrightarrow> map_of c1 k = map_of cfg k"
    "map fst c1 = map fst cfg"
    by blast
  from setDataKey_sets [OF c1(2), of "CtrlConfigReg K" repository]
  obtain c2 where c2: "setDataKey (CtrlConfigReg K) repository c1 = Inr c2"
    "map_of c2 (YStr ''data'') = Some (YMap ?d2)"
    "\<forall>k. k \<noteq> YStr ''data'' \<longrightarrow> map_of c2 k = map_of c1 k"
    "map fst c2 = map fst c1"
    by blast
  have 1: "setConfigurations K registryType repository cfg = Inr c2"
    by (simp add: setConfigurations_def c1(1) c2(1))
  have 2: "map_of ?d2 (YStr (CtrlConfigRegType K)) = Some (YStr registryType)"
    using keys by (simp add: update_conv')
  have 3: "map_of ?d2 (YStr (CtrlConfigReg K)) = Some (YStr repository)"
    by (simp add: update_conv')
  have 4: "\<forall>k. k \<noteq> YStr (CtrlConfigRegType K) \<and> k \<noteq> YStr (CtrlConfigReg K) \<longrightarrow>
               map_of ?d2 k = map_of dat k"
    by (simp add: update_conv')
  have 5: "\<forall>k. k \<noteq> YStr ''data'' \<longrightarrow> map_of c2 k = map_of cfg k"
    using c1(3) c2(3) by simp
  have 6: "map fst c2 = map fst cfg"
    using c1(4) c2(4) by simp
  from 1 c2(2) 2 3 4 5 6 show ?thesis by blast
qed

text \<open>
  The type assertion is the one step of \<open>updateCtrlConfig\<close> that stops the process
  without \<open>HandleErrorAndExit\<close>: whenever the decoded map has no nested map under
  \<open>data\<close>, the call panics after the read.
\<close>

lemma updateCtrlConfig_panics_without_data:
  assumes "GetCommandOutput K (Kubectl K) (getArgs K) (world s) = Inr y"
    and "Unmarshal K y = Inr cfg"
    and "\<forall>dat. map_of cfg (YStr ''data'') \<noteq> Some (YMap dat)"
  shows "updateCtrlConfig K registryType repository s =
         Panics TypeAssertion (s\<lparr>calls := calls s @ [CallGetCommandOutput]\<rparr>)"
  using assms
  by (simp add: updateCtrlConfig_def Let_def setConfigurations_def setDataKey_panics)

lemma updateCtrlConfig_decoded:
  assumes "GetCommandOutput K (Kubectl K) (getArgs K) (world s) = Inr y"
    and "Unmarshal K y = Inr cfg"
    and "setConfigurations K registryType repository cfg = Inr cfg'"
  shows "updateCtrlConfig K registryType repository s =
     (let s0 = s\<lparr>calls := calls s @ [CallGetCommandOutput]\<rparr> in
      case Marshal K cfg' of
        Inl err \<Rightarrow> Exits ''Error rendering controller-config'' (Some err) s0
      | Inr text \<Rightarrow>
          (case K8sApplyFromStdin K text (world s) of
             (Some err, w) \<Rightarrow>
               Exits ''Error creating controller-configs'' (Some err)
                 (s\<lparr>calls := calls s @ [CallGetCommandOutput, CallK8sApplyFromStdin text],
                    world := w\<rparr>)
           | (None, w) \<Rightarrow>
               Returns (s\<lparr>calls := calls s @ [CallGetCommandOutput, CallK8sApplyFromStdin text],
                          world := w\<rparr>)))"
  using assms
  by (simp add: updateCtrlConfig_def getArgs_def Let_def HandleErrorAndExit_def
      split: sum.splits prod.splits option.splits)

lemma updateCtrlConfig_Returns:
  assumes "updateCtrlConfig K registryType repository s = Returns s1"
  shows "\<exists>doc w. s1 = s\<lparr>calls := calls s @ [CallGetCommandOutput, CallK8sApplyFromStdin doc],
                          world := w\<rparr>"
  using assms
  by (auto simp: updateCtrlConfig_def getArgs_def Let_def HandleErrorAndExit_def
      split: sum.splits prod.splits option.splits)

lemma updateCtrlConfig_stops:
  assumes "\<forall>s1. updateCtrlConfig K registryType repository s \<noteq> Returns s1"
  shows "\<exists>cs. calls (final (updateCtrlConfig K registryType repository s)) = calls s @ cs \<and>
              (\<forall>opt. CallRun opt \<notin> set cs)"
proof -
  have "calls (final (updateCtrlConfig K registryType repository s)) =
          calls s @ [CallGetCommandOutput] \<or>
        (\<exists>doc. calls (final (updateCtrlConfig K registryType repository s)) =
          calls s @ [CallGetCommandOutput, CallK8sApplyFromStdin doc])"
    by (simp add: updateCtrlConfig_def getArgs_def Let_def HandleErrorAndExit_def
        split: sum.splits prod.splits option.splits)
  then show ?thesis by auto
qed

lemma UpdateConfigsSecrets_selected:
  assumes "map_of (registries s) (optionToExec s) = Some reg"
    and "Repository reg = Some repo"
  shows "UpdateConfigsSecrets K s =
         andThen (updateCtrlConfig K (Name reg) (repo (world s)) s)
           (\<lambda>s1. case map_of (registries s1) (optionToExec s1) of
                    None \<Rightarrow> Panics NilDereference s1
                  | Some reg1 \<Rightarrow>
                      (case Run reg1 of
                         None \<Rightarrow> Panics NilDereference s1
                       | Some run \<Rightarrow>
                           invoke run (s1\<lparr>calls := calls s1 @ [CallRun (optionToExec s1)]\<rparr>)))"
  using assms by (simp add: UpdateConfigsSecrets_def)

lemma calls_invoke: "calls (final (invoke f s)) = calls s"
  by (simp add: invoke_def split: outcome.splits)

lemma andThen_stops: "\<forall>s1. out \<noteq> Returns s1 \<Longrightarrow> andThen out f = out"
  by (cases out) simp_all

text \<open>
  Claim C5. Let a descriptor with a repository be selected. If \<open>updateCtrlConfig\<close>
  returns, it has made its two cluster calls, the read and then the apply, before
  \<open>Run\<close> is invoked: \<open>Run\<close> is applied to the state it returned, and the calls of
  \<open>UpdateConfigsSecrets\<close> are the read, the apply and \<open>Run\<close>, in this order. If
  \<open>updateCtrlConfig\<close> does not return, \<open>UpdateConfigsSecrets\<close> stops with the same
  outcome and \<open>Run\<close> is not among its calls.
\<close>

theorem UpdateConfigsSecrets_order:
  assumes sel: "map_of (registries s) (optionToExec s) = Some reg"
    and repo: "Repository reg = Some repo"
  shows "(\<forall>s1. updateCtrlConfig K (Name reg) (repo (world s)) s = Returns s1 \<longrightarrow>
            (\<exists>doc. calls s1 = calls s @ [CallGetCommandOutput, CallK8sApplyFromStdin doc] \<and>
               (\<forall>run. Run reg = Some run \<longrightarrow>
                  UpdateConfigsSecrets K s =
                    invoke run (s1\<lparr>calls := calls s1 @ [CallRun (optionToExec s)]\<rparr>) \<and>
                  calls (final (UpdateConfigsSecrets K s)) =
                    calls s @ [CallGetCommandOutput, CallK8sApplyFromStdin doc,
                               CallRun (optionToExec s)]))) \<and>
         ((\<forall>s1. updateCtrlConfig K (Name reg) (repo (world s)) s \<noteq> Returns s1) \<longrightarrow>
            UpdateConfigsSecrets K s = updateCtrlConfig K (Name reg) (repo (world s)) s \<and>
            (\<exists>cs. calls (final (UpdateConfigsSecrets K s)) = calls s @ cs \<and>
                  (\<forall>opt. CallRun opt \<notin> set cs)))"
proof (intro conjI allI impI)
  fix s1
  assume ret: "updateCtrlConfig K (Name reg) (repo (world s)) s = Returns s1"
  from updateCtrlConfig_Returns [OF ret] obtain doc w where
    s1: "s1 = s\<lparr>calls := calls s @ [CallGetCommandOutput, CallK8sApplyFromStdin doc],
                world := w\<rparr>"
    by blast
  have c: "calls s1 = calls s @ [CallGetCommandOutput, CallK8sApplyFromStdin doc]"
    by (simp add: s1)
  have r: "map_of (registries s1) (optionToExec s) = Some reg" "optionToExec s1 = optionToExec s"
    using sel by (simp_all add: s1)
  have "\<forall>run. Run reg = Some run \<longrightarrow>
          UpdateConfigsSecrets K s =
            invoke run (s1\<lparr>calls := calls s1 @ [CallRun (optionToExec s)]\<rparr>) \<and>
          calls (final (UpdateConfigsSecrets K s)) =
            calls s @ [CallGetCommandOutput, CallK8sApplyFromStdin doc, CallRun (optionToExec s)]"
  proof (intro allI impI)
    fix run
    assume run: "Run reg = Some run"
    have u: "UpdateConfigsSecrets K s =
             invoke run (s1\<lparr>calls := calls s1 @ [CallRun (optionToExec s)]\<rparr>)"
      by (simp add: UpdateConfigsSecrets_selected [OF sel repo] ret r run)
    have "calls (final (UpdateConfigsSecrets K s)) =
          calls s @ [CallGetCommandOutput, CallK8sApplyFromStdin doc, CallRun (optionToExec s)]"
      by (simp add: u calls_invoke c)
    with u show "UpdateConfigsSecrets K s =
            invoke run (s1\<lparr>calls := calls s1 @ [CallRun (optionToExec s)]\<rparr>) \<and>
          calls (final (UpdateConfigsSecrets K s)) =
            calls s @ [CallGetCommandOutput, CallK8sApplyFromStdin doc, CallRun (optionToExec s)]"
      by simp
  qed
  with c show "\<exists>doc. calls s1 = calls s @ [CallGetCommandOutput, CallK8sApplyFromStdin doc] \<and>
               (\<forall>run. Run reg = Some run \<longrightarrow>
                  UpdateConfigsSecrets K s =
                    invoke run (s1\<lparr>calls := calls s1 @ [CallRun (optionToExec s)]\<rparr>) \<and>
                  calls (final (UpdateConfigsSecrets K s)) =
                    calls s @ [CallGetCommandOutput, CallK8sApplyFromStdin doc,
                               CallRun (optionToExec s)])"
    by blast
next
  assume stop: "\<forall>s1. updateCtrlConfig K (Name reg) (repo (world s)) s \<noteq> Returns s1"
  then show u: "UpdateConfigsSecrets K s = updateCtrlConfig K (Name reg) (repo (world s)) s"
    by (simp add: UpdateConfigsSecrets_selected [OF sel repo] andThen_stops)
  from updateCtrlConfig_stops [OF stop] u
  show "\<exists>cs. calls (final (UpdateConfigsSecrets K s)) = calls s @ cs \<and>
             (\<forall>opt. CallRun opt \<notin> set cs)"
    by simp
qed

text \<open>
  Claim C10. When \<open>optionToExec\<close> is not a key of the catalog, each of
  \<open>ReadInputsInteractive\<close>, \<open>ReadInputsFromFlags\<close>, \<open>ValidateFlags\<close> and
  \<open>UpdateConfigsSecrets\<close> panics on the nil catalog entry, before it does anything
  else. \<open>UpdateConfigsSecrets\<close> panics as well when the selected descriptor has a nil
  \<open>Repository\<close>.
\<close>

theorem selection_required:
  "(map_of (registries s) (optionToExec s) = None \<longrightarrow>
      ReadInputsInteractive s = Panics NilDereference s \<and>
      ReadInputsFromFlags flagValues s = Panics NilDereference s \<and>
      ValidateFlags flagValues s = Panics NilDereference s \<and>
      UpdateConfigsSecrets K s = Panics NilDereference s) \<and>
   (\<forall>reg. map_of (registries s) (optionToExec s) = Some reg \<and> Repository reg = None \<longrightarrow>
      UpdateConfigsSecrets K s = Panics NilDereference s)"
  by (simp add: ReadInputsInteractive_def ReadInputsFromFlags_def ValidateFlags_def
      UpdateConfigsSecrets_def)

text \<open>
  Claim C4. Let the decoded config map hold a nested map under \<open>data\<close>, and let the
  registry-type key and the repository key be different strings. The map that
  \<open>updateCtrlConfig\<close> hands to the encoder has, under \<open>data\<close>, the registry type and
  the repository at these two keys and every other key of \<open>data\<close> as before; outside
  \<open>data\<close> every key is as before, and no key is added or removed at the top level.
  The text the encoder gives for this map is the text applied to the cluster.
\<close>

theorem updateCtrlConfig_frame:
  assumes get: "GetCommandOutput K (Kubectl K) (getArgs K) (world s) = Inr y"
    and dec: "Unmarshal K y = Inr cfg"
    and dat: "map_of cfg (YStr ''data'') = Some (YMap dat)"
    and keys: "CtrlConfigRegType K \<noteq> CtrlConfigReg K"
  shows "\<exists>cfg' dat'.
           setConfigurations K registryType repository cfg = Inr cfg' \<and>
           map_of cfg' (YStr ''data'') = Some (YMap dat') \<and>
           map_of dat' (YStr (CtrlConfigRegType K)) = Some (YStr registryType) \<and>
           map_of dat' (YStr (CtrlConfigReg K)) = Some (YStr repository) \<and>
           (\<forall>k. k \<noteq> YStr (CtrlConfigRegType K) \<and> k \<noteq> YStr (CtrlConfigReg K) \<longrightarrow>
                map_of dat' k = map_of dat k) \<and>
           (\<forall>k. k \<noteq> YStr ''data'' \<longrightarrow> map_of cfg' k = map_of cfg k) \<and>
           map fst cfg' = map fst cfg \<and>
           (\<forall>doc. Marshal K cfg' = Inr doc \<longrightarrow>
              calls (final (updateCtrlConfig K registryType repository s)) =
                calls s @ [CallGetCommandOutput, CallK8sApplyFromStdin doc] \<and>
              world (final (updateCtrlConfig K registryType repository s)) =
                snd (K8sApplyFromStdin K doc (world s)))"
proof -
  from setConfigurations_sets [OF dat keys, of registryType repository]
  obtain cfg' dat' where c:
    "setConfigurations K registryType repository cfg = Inr cfg'"
    "map_of cfg' (YStr ''data'') = Some (YMap dat')"
    "map_of dat' (YStr (CtrlConfigRegType K)) = Some (YStr registryType)"
    "map_of dat' (YStr (CtrlConfigReg K)) = Some (YStr repository)"
    "\<forall>k. k \<noteq> YStr (CtrlConfigRegType K) \<and> k \<noteq> YStr (CtrlConfigReg K) \<longrightarrow>
         map_of dat' k = map_of dat k"
    "\<forall>k. k \<noteq> YStr ''data'' \<longrightarrow> map_of cfg' k = map_of cfg k"
    "map fst cfg' = map fst cfg"
    by blast
  have "\<forall>doc. Marshal K cfg' = Inr doc \<longrightarrow>
          calls (final (updateCtrlConfig K registryType repository s)) =
            calls s @ [CallGetCommandOutput, CallK8sApplyFromStdin doc] \<and>
          world (final (updateCtrlConfig K registryType repository s)) =
            snd (K8sApplyFromStdin K doc (world s))"
    by (simp add: updateCtrlConfig_decoded [OF get dec c(1)] split: prod.splits option.splits)
  with c show ?thesis by blast
qed

section \<open>The functions on the test double\<close>

lemma demo_selected: "map_of (registries demoState) (optionToExec demoState) = Some dockerHub"
  by (simp add: demoState_def emptyState_def)

lemma dockerHub_required: "RequiredFlags (Flags dockerHub) = Some [(''a'', True), (''b'', True)]"
  by (simp add: dockerHub_def)

lemma dockerHub_optional: "OptionalFlags (Flags dockerHub) = Some [(''c'', True)]"
  by (simp add: dockerHub_def)

theorem ValidateFlags_verdict_witness:
  "ValidateFlags (Some [(''a'', given)]) demoState = Exits (missingMsg ''b'') None demoState \<and>
   ValidateFlags (Some [(''a'', given), (''b'', given), (''d'', given)]) demoState =
     Exits (unsupportedMsg ''d'') None demoState \<and>
   ValidateFlags (Some [(''a'', given), (''b'', given)]) demoState = Returns demoState \<and>
   ValidateFlags (Some [(''a'', given), (''b'', given), (''c'', given)]) demoState =
     Returns demoState"
proof -
  let ?req = "[(''a'', True), (''b'', True)]"
  let ?opt = "[(''c'', True)]"
  have ok: "gomap_ok ?req" by (simp add: gomap_ok_def)
  note verdict = ValidateFlags_verdict [OF demo_selected dockerHub_required dockerHub_optional ok]
  have m1: "\<And>flg. missingRequired ?req [(''a'', given)] flg \<longleftrightarrow> flg = ''b''"
    by (auto simp: missingRequired_def marked_def given_def split: if_splits)
  have 1: "ValidateFlags (Some [(''a'', given)]) demoState =
           Exits (missingMsg ''b'') None demoState"
    using verdict [of "[(''a'', given)]"] by (simp add: gomap_ok_def m1)
  let ?abd = "[(''a'', given), (''b'', given), (''d'', given)]"
  have m2: "\<And>flg. \<not> missingRequired ?req ?abd flg"
    by (auto simp: missingRequired_def marked_def given_def split: if_splits)
  have u2: "\<And>flg. unsupportedProvided ?req ?opt ?abd flg \<longleftrightarrow> flg = ''d''"
    by (auto simp: unsupportedProvided_def marked_def given_def split: if_splits)
  have 2: "ValidateFlags (Some ?abd) demoState = Exits (unsupportedMsg ''d'') None demoState"
    using verdict [of ?abd] by (simp add: gomap_ok_def m2 u2)
  let ?ab = "[(''a'', given), (''b'', given)]"
  have m3: "\<And>flg. \<not> missingRequired ?req ?ab flg"
    by (auto simp: missingRequired_def marked_def given_def split: if_splits)
  have u3: "\<And>flg. \<not> unsupportedProvided ?req ?opt ?ab flg"
    by (auto simp: unsupportedProvided_def marked_def given_def split: if_splits)
  have 3: "ValidateFlags (Some ?ab) demoState = Returns demoState"
    using verdict [of ?ab] by (simp add: gomap_ok_def m3 u3)
  let ?abc = "[(''a'', given), (''b'', given), (''c'', given)]"
  have m4: "\<And>flg. \<not> missingRequired ?req ?abc flg"
    by (auto simp: missingRequired_def marked_def given_def split: if_splits)
  have u4: "\<And>flg. \<not> unsupportedProvided ?req ?opt ?abc flg"
    by (auto simp: unsupportedProvided_def marked_def given_def split: if_splits)
  have 4: "ValidateFlags (Some ?abc) demoState = Returns demoState"
    using verdict [of ?abc] by (simp add: gomap_ok_def m4 u4)
  from 1 2 3 4 show ?thesis by simp
qed

theorem ValidateFlags_required_first_witness:
  "ValidateFlags (Some [(''d'', given), (''a'', given)]) demoState =
     Exits (missingMsg ''b'') None demoState \<and>
   missingRequired [(''a'', True), (''b'', True)] [(''d'', given), (''a'', given)] ''b'' \<and>
   unsupportedProvided [(''a'', True), (''b'', True)] [(''c'', True)]
     [(''d'', given), (''a'', given)] ''d''"
proof -
  let ?req = "[(''a'', True), (''b'', True)]"
  let ?opt = "[(''c'', True)]"
  let ?fv = "[(''d'', given), (''a'', given)]"
  have ok: "gomap_ok ?req" by (simp add: gomap_ok_def)
  have m: "\<And>flg. missingRequired ?req ?fv flg \<longleftrightarrow> flg = ''b''"
    by (auto simp: missingRequired_def marked_def given_def split: if_splits)
  have u: "unsupportedProvided ?req ?opt ?fv ''d''"
    by (simp add: unsupportedProvided_def marked_def given_def)
  have b: "missingRequired ?req ?fv ''b''" by (simp add: m)
  from ValidateFlags_required_first
         [OF demo_selected dockerHub_required dockerHub_optional ok b u]
  have "ValidateFlags (Some ?fv) demoState = Exits (missingMsg ''b'') None demoState"
    by (simp add: m)
  with b u show ?thesis by simp
qed

lemma add_first: "add (Some dockerHub) emptyState =
                  Returns (emptyState\<lparr>registries := [(1, dockerHub)]\<rparr>)"
  by (simp add: add_def emptyState_def dockerHub_def)

theorem add_contract_witness:
  "(\<exists>s'. add (Some dockerHub) emptyState = Returns s' \<and>
         map_of (registries s') 1 = Some dockerHub) \<and>
   (\<exists>msg err. add (Some dockerHub) demoState = Exits msg (Some err) demoState) \<and>
   (\<exists>msg err. add (Some (dockerHub\<lparr>Option := 0\<rparr>)) emptyState = Exits msg (Some err) emptyState) \<and>
   gomap_ok [(1 :: int, dockerHub)]"
proof -
  have opt: "Option dockerHub = 1" by (simp add: dockerHub_def)
  have free: "1 \<le> Option dockerHub \<and> map_of (registries emptyState) (Option dockerHub) = None"
    by (simp add: opt emptyState_def)
  have taken: "Option dockerHub < 1 \<or> map_of (registries demoState) (Option dockerHub) \<noteq> None"
    by (simp add: opt demoState_def emptyState_def)
  have zero: "Option (dockerHub\<lparr>Option := 0\<rparr>) < 1 \<or>
              map_of (registries emptyState) (Option (dockerHub\<lparr>Option := 0\<rparr>)) \<noteq> None"
    by simp
  have "catalog_reachable (registries (emptyState\<lparr>registries := [(1, dockerHub)]\<rparr>))"
  proof (rule catalog_reachable.added [OF _ add_first])
    show "catalog_reachable (registries emptyState)"
      by (simp add: emptyState_def catalog_reachable.empty)
  qed
  then have reach: "catalog_reachable [(1, dockerHub)]" by simp
  from add_contract [of dockerHub emptyState "[(1, dockerHub)]"] free reach
  have 1: "\<exists>s'. add (Some dockerHub) emptyState = Returns s' \<and>
                map_of (registries s') 1 = Some dockerHub"
    and 4: "gomap_ok [(1 :: int, dockerHub)]"
    by (auto simp: opt)
  from add_contract [of dockerHub demoState "[]"] taken
  have 2: "\<exists>msg err. add (Some dockerHub) demoState = Exits msg (Some err) demoState"
    by blast
  from add_contract [of "dockerHub\<lparr>Option := 0\<rparr>" emptyState "[]"] zero
  have 3: "\<exists>msg err. add (Some (dockerHub\<lparr>Option := 0\<rparr>)) emptyState =
                      Exits msg (Some err) emptyState"
    by blast
  from 1 2 3 4 show ?thesis by blast
qed

theorem SetRegistry_contract_witness:
  "SetRegistry ''HTTP'' demoState = Returns (demoState\<lparr>optionToExec := 2\<rparr>) \<and>
   SetRegistry ''x'' demoState = Exits ''Invalid registry type: x'' None demoState"
proof -
  have names: "Name httpRegistry = ''HTTP''" "Name dockerHub = ''DOCKER_HUB''"
    by (simp_all add: httpRegistry_def dockerHub_def)
  have regs: "registries demoState = [(2, httpRegistry), (1, dockerHub)]"
    by (simp add: demoState_def emptyState_def)
  have found: "\<exists>(opt, reg) \<in> set (registries demoState). Name reg = ''HTTP''"
    by (simp add: regs names)
  have unknown: "\<forall>(opt, reg) \<in> set (registries demoState). Name reg \<noteq> ''x''"
    by (simp add: regs names)
  from SetRegistry_contract [of demoState "''HTTP''"] found
  obtain opt reg where "(opt, reg) \<in> set (registries demoState)" "Name reg = ''HTTP''"
    "SetRegistry ''HTTP'' demoState = Returns (demoState\<lparr>optionToExec := opt\<rparr>)"
    by blast
  then have 1: "SetRegistry ''HTTP'' demoState = Returns (demoState\<lparr>optionToExec := 2\<rparr>)"
    by (auto simp: regs names)
  from SetRegistry_contract [of demoState "''x''"] unknown
  have 2: "SetRegistry ''x'' demoState = Exits ''Invalid registry type: x'' None demoState"
    by simp
  from 1 2 show ?thesis by simp
qed

theorem ChooseRegistryInteractive_range_witness:
  "(\<exists>s'. ChooseRegistryInteractive (Numeric 3) demoState =
           Exits ''Error reading registry type'' (Some (InvalidOption (Numeric 3))) s' \<and>
         optionToExec s' = 1) \<and>
   (\<exists>s'. ChooseRegistryInteractive (NonNumeric ''two'') demoState =
           Exits ''Error reading registry type'' (Some (InvalidOption (NonNumeric ''two''))) s' \<and>
         optionToExec s' = 1) \<and>
   (\<exists>s'. ChooseRegistryInteractive (Numeric 2) demoState = Returns s' \<and> optionToExec s' = 2)"
proof -
  have len: "int (length (registries demoState)) = 2" "optionToExec demoState = 1"
    by (simp_all add: demoState_def emptyState_def)
  from ChooseRegistryInteractive_range [of "Numeric 3" demoState]
  have 1: "\<exists>s'. ChooseRegistryInteractive (Numeric 3) demoState =
           Exits ''Error reading registry type'' (Some (InvalidOption (Numeric 3))) s' \<and>
         optionToExec s' = 1"
    by (simp add: len) blast
  from ChooseRegistryInteractive_range [of "NonNumeric ''two''" demoState]
  have 2: "\<exists>s'. ChooseRegistryInteractive (NonNumeric ''two'') demoState =
           Exits ''Error reading registry type'' (Some (InvalidOption (NonNumeric ''two''))) s' \<and>
         optionToExec s' = 1"
    by (simp add: len) blast
  from ChooseRegistryInteractive_range [of "Numeric 2" demoState]
  have 3: "\<exists>s'. ChooseRegistryInteractive (Numeric 2) demoState = Returns s' \<and>
                optionToExec s' = 2"
    by (simp add: len)
  from 1 2 3 show ?thesis by simp
qed

theorem selection_required_witness:
  "ReadInputsInteractive emptyState = Panics NilDereference emptyState \<and>
   ReadInputsFromFlags (Some [(''a'', given)]) emptyState = Panics NilDereference emptyState \<and>
   ValidateFlags (Some [(''a'', given)]) emptyState = Panics NilDereference emptyState \<and>
   UpdateConfigsSecrets doubleK8s emptyState = Panics NilDereference emptyState \<and>
   UpdateConfigsSecrets doubleK8s (demoState\<lparr>optionToExec := 2\<rparr>) =
     Panics NilDereference (demoState\<lparr>optionToExec := 2\<rparr>)"
proof -
  have none: "map_of (registries emptyState) (optionToExec emptyState) = None"
    by (simp add: emptyState_def)
  have http: "map_of (registries (demoState\<lparr>optionToExec := 2\<rparr>))
                (optionToExec (demoState\<lparr>optionToExec := 2\<rparr>)) = Some httpRegistry \<and>
              Repository httpRegistry = None"
    by (simp add: demoState_def emptyState_def httpRegistry_def)
  from selection_required [of emptyState "Some [(''a'', given)]" doubleK8s] none
  have 1: "ReadInputsInteractive emptyState = Panics NilDereference emptyState \<and>
   ReadInputsFromFlags (Some [(''a'', given)]) emptyState = Panics NilDereference emptyState \<and>
   ValidateFlags (Some [(''a'', given)]) emptyState = Panics NilDereference emptyState \<and>
   UpdateConfigsSecrets doubleK8s emptyState = Panics NilDereference emptyState"
    by blast
  from selection_required [of "demoState\<lparr>optionToExec := 2\<rparr>" None doubleK8s] http
  have 2: "UpdateConfigsSecrets doubleK8s (demoState\<lparr>optionToExec := 2\<rparr>) =
     Panics NilDereference (demoState\<lparr>optionToExec := 2\<rparr>)"
    by blast
  from 1 2 show ?thesis by simp
qed

lemma double_get:
  "GetCommandOutput doubleK8s (Kubectl doubleK8s) (getArgs doubleK8s) (world demoState) =
     Inr exampleYaml"
  by (simp add: doubleK8s_def demoState_def emptyState_def)

lemma double_decode: "Unmarshal doubleK8s exampleYaml = Inr exampleConfig"
  by (simp add: doubleK8s_def doubleUnmarshal_def)

lemma example_data:
  "map_of exampleConfig (YStr ''data'') =
     Some (YMap [(YStr ''registryType'', YStr ''HTTP''), (YStr ''other'', YStr ''x'')])"
  by (simp add: exampleConfig_def)

lemma double_keys: "CtrlConfigRegType doubleK8s \<noteq> CtrlConfigReg doubleK8s"
  by (simp add: doubleK8s_def)

theorem updateCtrlConfig_frame_witness:
  "\<exists>cfg' dat'.
     setConfigurations doubleK8s ''DOCKER_HUB'' ''library'' exampleConfig = Inr cfg' \<and>
     map_of cfg' (YStr ''kind'') = Some (YStr ''ConfigMap'') \<and>
     map_of cfg' (YStr ''data'') = Some (YMap dat') \<and>
     map_of dat' (YStr ''registryType'') = Some (YStr ''DOCKER_HUB'') \<and>
     map_of dat' (YStr ''repositoryName'') = Some (YStr ''library'') \<and>
     map_of dat' (YStr ''other'') = Some (YStr ''x'')"
proof -
  from updateCtrlConfig_frame [OF double_get double_decode example_data double_keys,
       of "''DOCKER_HUB''" "''library''"]
  obtain cfg' dat' where c:
    "setConfigurations doubleK8s ''DOCKER_HUB'' ''library'' exampleConfig = Inr cfg'"
    "map_of cfg' (YStr ''data'') = Some (YMap dat')"
    "map_of dat' (YStr (CtrlConfigRegType doubleK8s)) = Some (YStr ''DOCKER_HUB'')"
    "map_of dat' (YStr (CtrlConfigReg doubleK8s)) = Some (YStr ''library'')"
    "\<forall>k. k \<noteq> YStr (CtrlConfigRegType doubleK8s) \<and> k \<noteq> YStr (CtrlConfigReg doubleK8s) \<longrightarrow>
         map_of dat' k =
         map_of [(YStr ''registryType'', YStr ''HTTP''), (YStr ''other'', YStr ''x'')] k"
    "\<forall>k. k \<noteq> YStr ''data'' \<longrightarrow> map_of cfg' k = map_of exampleConfig k"
    by blast
  have names: "CtrlConfigRegType doubleK8s = ''registryType''"
    "CtrlConfigReg doubleK8s = ''repositoryName''"
    by (simp_all add: doubleK8s_def)
  from c(6) have kind: "map_of cfg' (YStr ''kind'') = Some (YStr ''ConfigMap'')"
    by (simp add: exampleConfig_def)
  from c(5) have other: "map_of dat' (YStr ''other'') = Some (YStr ''x'')"
    by (simp add: names)
  from c(1,2) c(3,4) [unfolded names] kind other show ?thesis by blast
qed

lemma demo_repository: "Repository dockerHub = Some repositoryVar"
  by (simp add: dockerHub_def)

lemma demo_update:
  "updateCtrlConfig doubleK8s (Name dockerHub) (repositoryVar (world demoState)) demoState =
     Returns (demoState
       \<lparr>calls := [CallGetCommandOutput,
                  CallK8sApplyFromStdin
                    (doubleMarshal
                      [(YStr ''kind'', YStr ''ConfigMap''),
                       (YStr ''data'',
                        YMap [(YStr ''registryType'', YStr ''DOCKER_HUB''),
                              (YStr ''other'', YStr ''x''),
                              (YStr ''repositoryName'', YStr ''library'')])])],
        world := (world demoState)
          \<lparr>controllerConfig :=
             Some (doubleMarshal
                      [(YStr ''kind'', YStr ''ConfigMap''),
                       (YStr ''data'',
                        YMap [(YStr ''registryType'', YStr ''DOCKER_HUB''),
                              (YStr ''other'', YStr ''x''),
                              (YStr ''repositoryName'', YStr ''library'')])])\<rparr>\<rparr>)"
proof -
  have cfg: "setConfigurations doubleK8s ''DOCKER_HUB'' ''library'' exampleConfig =
        Inr [(YStr ''kind'', YStr ''ConfigMap''),
             (YStr ''data'',
              YMap [(YStr ''registryType'', YStr ''DOCKER_HUB''),
                    (YStr ''other'', YStr ''x''),
                    (YStr ''repositoryName'', YStr ''library'')])]"
    by (simp add: setConfigurations_def setDataKey_def exampleConfig_def doubleK8s_def)
  have args: "Name dockerHub = ''DOCKER_HUB''" "repositoryVar (world demoState) = ''library''"
    by (simp_all add: dockerHub_def demoState_def emptyState_def)
  have enc: "\<And>m. Marshal doubleK8s m = Inr (doubleMarshal m)"
    "\<And>doc w. K8sApplyFromStdin doubleK8s doc w = (None, w\<lparr>controllerConfig := Some doc\<rparr>)"
    by (simp_all add: doubleK8s_def)
  have c0: "calls demoState = []" by (simp add: demoState_def emptyState_def)
  show ?thesis
    unfolding args
    by (simp add: updateCtrlConfig_decoded [OF double_get double_decode cfg] enc c0
        del: doubleMarshal.simps)
qed


text \<open>
  Claim C9 says that every failure of the package goes through
  \<open>HandleErrorAndExit\<close>. On a config map with no \<open>data\<close> section the type assertion
  of \<open>updateCtrlConfig\<close> panics instead: the read and the decoding have succeeded, and
  the process stops in a run-time panic, not in an exit with a message.
\<close>

theorem updateCtrlConfig_without_data:
  "updateCtrlConfig doubleK8s ''DOCKER_HUB'' ''library'' bareState =
     Panics TypeAssertion (bareState\<lparr>calls := [CallGetCommandOutput]\<rparr>)"
  by (simp add: updateCtrlConfig_def getArgs_def doubleK8s_def bareState_def demoState_def
      emptyState_def doubleUnmarshal_def exampleYaml_def bareYaml_def bareConfig_def
      setConfigurations_def setDataKey_def)

lemma itoa_1: "itoa 1 = ''1''"
  by (simp add: itoa_def digits.simps digit_def)

lemma itoa_2: "itoa 2 = ''2''"
  by (simp add: itoa_def digits.simps digit_def)

lemma keys_1_2:
  assumes "sorted_wrt (<) keys" "set keys = {2, 1 :: int}"
  shows "keys = [1, 2]"
proof (rule sorted_distinct_set_unique)
  from assms(1) show "sorted keys" "distinct keys"
    by (simp_all add: strict_sorted_iff)
  show "sorted [1, 2 :: int]" "distinct [1, 2 :: int]" by simp_all
  from assms(2) show "set keys = set [1, 2 :: int]" by auto
qed

theorem ChooseRegistryInteractive_listing_witness:
  "printed (final (ChooseRegistryInteractive (Numeric 1) demoState)) =
     ''Choose registry type:'' @ [newline] @
     ''1: Docker Hub'' @ [newline] @
     ''2: HTTP Private Registry'' @ [newline] \<and>
   printed (final (ChooseRegistryInteractive (Numeric 1)
                     (demoState\<lparr>registries := [(1, dockerHub), (2, httpRegistry)]\<rparr>))) =
   printed (final (ChooseRegistryInteractive (Numeric 1) demoState))"
proof -
  have regs: "registries demoState = [(2, httpRegistry), (1, dockerHub)]"
    "printed demoState = []"
    by (simp_all add: demoState_def emptyState_def)
  have ok: "gomap_ok (registries demoState)"
    by (simp add: regs gomap_ok_def)
  note listing = ChooseRegistryInteractive_listing [OF ok, of "Numeric 1"]
  from listing obtain keys where k: "sorted_wrt (<) keys"
    "set keys = fst ` set (registries demoState)"
    "printed (final (ChooseRegistryInteractive (Numeric 1) demoState)) =
       printed demoState @ ''Choose registry type:'' @ [newline] @
       concat (map (entryLine (registries demoState)) keys)"
    by blast
  from k(1,2) have "keys = [1, 2]"
    by (intro keys_1_2) (simp_all add: regs)
  with k(3) have 1: "printed (final (ChooseRegistryInteractive (Numeric 1) demoState)) =
     ''Choose registry type:'' @ [newline] @
     ''1: Docker Hub'' @ [newline] @
     ''2: HTTP Private Registry'' @ [newline]"
    by (simp add: regs entryLine_def itoa_1 itoa_2 dockerHub_def httpRegistry_def)
  let ?t = "demoState\<lparr>registries := [(1, dockerHub), (2, httpRegistry)]\<rparr>"
  have "gomap_ok (registries ?t) \<and> set (registries ?t) = set (registries demoState) \<and>
        printed ?t = printed demoState"
    by (auto simp: regs gomap_ok_def)
  with listing have 2: "printed (final (ChooseRegistryInteractive (Numeric 1) ?t)) =
                        printed (final (ChooseRegistryInteractive (Numeric 1) demoState))"
    by blast
  from 1 2 show ?thesis by simp
qed

lemma uninstalled_update:
  "updateCtrlConfig doubleK8s (Name dockerHub) (repositoryVar (world uninstalledState))
     uninstalledState =
   Exits (''Error reading controller-config.'' @ [newline] @
          ''Install api operator using the command: apictl install api-operator'')
     (Some (ErrorsNew ''error reading controller-config''))
     (uninstalledState\<lparr>calls := [CallGetCommandOutput]\<rparr>)"
  by (simp add: updateCtrlConfig_def getArgs_def doubleK8s_def uninstalledState_def
      demoState_def emptyState_def HandleErrorAndExit_def)

lemma uninstalled_selected:
  "map_of (registries uninstalledState) (optionToExec uninstalledState) = Some dockerHub"
  by (simp add: uninstalledState_def demoState_def emptyState_def)

theorem UpdateConfigsSecrets_order_witness:
  "(\<exists>doc. calls (final (UpdateConfigsSecrets doubleK8s demoState)) =
           [CallGetCommandOutput, CallK8sApplyFromStdin doc, CallRun 1]) \<and>
   UpdateConfigsSecrets doubleK8s uninstalledState =
     Exits (''Error reading controller-config.'' @ [newline] @
            ''Install api operator using the command: apictl install api-operator'')
       (Some (ErrorsNew ''error reading controller-config''))
       (uninstalledState\<lparr>calls := [CallGetCommandOutput]\<rparr>)"
proof -
  have run: "Run dockerHub =
             Some (\<lambda>w. Returns (w\<lparr>secrets := secrets w @ [''docker-hub-secret'']\<rparr>))"
    by (simp add: dockerHub_def)
  have c0: "calls demoState = []" "optionToExec demoState = 1"
    by (simp_all add: demoState_def emptyState_def)
  from UpdateConfigsSecrets_order [OF demo_selected demo_repository, of doubleK8s]
    demo_update run
  have 1: "\<exists>doc. calls (final (UpdateConfigsSecrets doubleK8s demoState)) =
           [CallGetCommandOutput, CallK8sApplyFromStdin doc, CallRun 1]"
    by (auto simp: c0)
  from UpdateConfigsSecrets_order [OF uninstalled_selected demo_repository, of doubleK8s]
    uninstalled_update
  have 2: "UpdateConfigsSecrets doubleK8s uninstalledState =
     Exits (''Error reading controller-config.'' @ [newline] @
            ''Install api operator using the command: apictl install api-operator'')
       (Some (ErrorsNew ''error reading controller-config''))
       (uninstalledState\<lparr>calls := [CallGetCommandOutput]\<rparr>)"
    by simp
  from 1 2 show ?thesis by simp
qed


end
